theory Spec2Isabelle
  imports Complex_Main
begin

section \<open>Cardinal B-splines on Lie groups: a model of \<open>smooth/interp/bspline.hpp\<close>\<close>

text \<open>
  The header \<open>bspline.hpp\<close> has three layers: the coefficient matrices of the cardinal
  B-spline basis (\<open>detail::card_coeffmat\<close>, \<open>detail::cum_card_coeffmat\<close>), the evaluator
  \<open>bspline_eval\<close> in its displacement form and its control-point form, and the class
  \<open>BSpline\<close> that maps a query time to a window of control points.

  Conventions of the model.
  \<^item> \<open>Scalar\<close> (\<open>double\<close> in the code) is an exact real number: every statement below is
    about the arithmetic the code writes down, not about IEEE rounding.
  \<^item> A fixed-size array or Eigen vector is a list; a matrix is the list of its rows. A
    cell that the code has not written yet holds \<open>0\<close>; the code never reads such a cell
    except in \<open>StaticMatrix\<close>, which is zero-initialised.
  \<^item> A \<open>for\<close> loop over an index range is a \<open>fold\<close> over that range, or a recursive
    function on the counter when an iteration can fail.
  \<^item> An exception or an operation without defined behaviour is a value \<open>Inl e\<close> of the
    result type \<open>error + 'a\<close>.
  \<^item> An optional output argument (\<open>vel\<close>, \<open>acc\<close>, \<open>der\<close>) is a flag on the way in
    (\<open>has_value()\<close>) and an \<open>option\<close> on the way out.
  \<^item> The degree \<open>K\<close> is a template argument; it is an explicit argument here, a natural
    number. The evaluator converts it to \<open>int\<close> and to \<open>std::size_t\<close> without loss (the code
    builds a \<open>(K+1)\<times>(K+1)\<close> matrix at compile time); only \<open>BSpline::eval\<close>, which mixes \<open>K\<close> with
    the run-time size of the control-point vector, has its unsigned arithmetic written out.
\<close>

subsection \<open>\<open>meta::StaticMatrix\<close>\<close>

text \<open>
  Modelled from the spec: \<open>smooth/meta.hpp\<close>, which declares \<open>StaticMatrix\<close>, is not part
  of the sources at hand. The spec describes the degree-\<open>K\<close> coefficient matrix as
  "assembled from two degree-\<open>(K-1)\<close> matrices each weighted by a knot blending matrix"
  and as "a \<open>(K+1)\<times>(K+1)\<close> matrix of scalars"; accordingly \<open>*\<close> is the matrix product,
  \<open>+\<close> the entrywise sum, \<open>transpose()\<close> the transpose, \<open>m[i][j]\<close> the entry in row \<open>i\<close>
  and column \<open>j\<close>, and a fresh matrix is zero. The dimensions are template arguments in
  the code and explicit arguments here.
\<close>

type_synonym Scalar = real
type_synonym StaticMatrix = "Scalar list list"

definition SM_zero :: "nat \<Rightarrow> nat \<Rightarrow> StaticMatrix" where
  "SM_zero rows cols = replicate rows (replicate cols 0)"

definition SM_set :: "StaticMatrix \<Rightarrow> nat \<Rightarrow> nat \<Rightarrow> Scalar \<Rightarrow> StaticMatrix" where
  "SM_set m i j v = m[i := (m ! i)[j := v]]"

definition SM_add :: "StaticMatrix \<Rightarrow> StaticMatrix \<Rightarrow> StaticMatrix" where
  "SM_add a b = map2 (map2 (+)) a b"

definition SM_mul :: "nat \<Rightarrow> nat \<Rightarrow> nat \<Rightarrow> StaticMatrix \<Rightarrow> StaticMatrix \<Rightarrow> StaticMatrix" where
  "SM_mul rows inner cols a b =
     map (\<lambda>i. map (\<lambda>j. sum_list (map (\<lambda>k. a ! i ! k * b ! k ! j) [0..<inner])) [0..<cols]) [0..<rows]"

definition SM_transpose :: "nat \<Rightarrow> nat \<Rightarrow> StaticMatrix \<Rightarrow> StaticMatrix" where
  "SM_transpose rows cols a = map (\<lambda>j. map (\<lambda>i. a ! i ! j) [0..<rows]) [0..<cols]"

subsection \<open>\<open>detail::card_coeffmat\<close> and \<open>detail::cum_card_coeffmat\<close>\<close>

text \<open>
  The two loops of \<open>card_coeffmat\<close> that fill \<open>low\<close>, \<open>high\<close> and \<open>left\<close>, \<open>right\<close>,
  then the recursion over the degree, then the in-place running sum of
  \<open>cum_card_coeffmat\<close>.
\<close>

definition low_high :: "nat \<Rightarrow> StaticMatrix \<Rightarrow> StaticMatrix \<times> StaticMatrix" where
  "low_high K coeff_mat_km1 =
     fold (\<lambda>i. fold (\<lambda>j (low, high).
             (SM_set low i j (coeff_mat_km1 ! i ! j),
              SM_set high (i + 1) j (coeff_mat_km1 ! i ! j))) [0..<K])
       [0..<K] (SM_zero (K + 1) K, SM_zero (K + 1) K)"

definition left_right :: "nat \<Rightarrow> StaticMatrix \<times> StaticMatrix" where
  "left_right K =
     fold (\<lambda>k (left, right).
        let left = SM_set left k (k + 1) (real (K - (k + 1)) / real K);
            left = SM_set left k k (1 - left ! k ! (k + 1));
            right = SM_set right k (k + 1) (1 / real K);
            right = SM_set right k k (- (right ! k ! (k + 1)))
        in (left, right))
       [0..<K] (SM_zero K (K + 1), SM_zero K (K + 1))"

fun card_coeffmat :: "nat \<Rightarrow> StaticMatrix" where
  "card_coeffmat 0 = SM_set (SM_zero 1 1) 0 0 1"
| "card_coeffmat (Suc Km1) =
     (let K = Suc Km1;
          coeff_mat_km1 = card_coeffmat Km1;
          (low, high) = low_high K coeff_mat_km1;
          (left, right) = left_right K
      in SM_add (SM_mul (K + 1) K (K + 1) low left) (SM_mul (K + 1) K (K + 1) high right))"

definition cum_card_coeffmat :: "nat \<Rightarrow> StaticMatrix" where
  "cum_card_coeffmat K =
     fold (\<lambda>i. fold (\<lambda>j ret. SM_set ret i (K - 1 - j) (ret ! i ! (K - 1 - j) + ret ! i ! (K - j)))
             [0..<K])
       [0..<K + 1] (card_coeffmat K)"

text \<open>
  The running sum as the spec words it, on one row: "a right-to-left running sum across
  matrix columns: \<open>ret[i][K-1-j] += ret[i][K-j]\<close>".
\<close>

definition running_sum_row :: "nat \<Rightarrow> Scalar list \<Rightarrow> Scalar list" where
  "running_sum_row K row =
     fold (\<lambda>j ret. ret[K - 1 - j := ret ! (K - 1 - j) + ret ! (K - j)]) [0..<K] row"

text \<open>
  The cumulative basis polynomial \<open>B\<tilde>\<^sub>j(u)\<close> of degree \<open>K\<close>: column \<open>j\<close> of the
  cumulative coefficient matrix against the powers \<open>1, u, \<dots>, u\<^sup>K\<close>.
\<close>

definition Btilde :: "nat \<Rightarrow> Scalar \<Rightarrow> nat \<Rightarrow> Scalar" where
  "Btilde K u j = sum_list (map (\<lambda>k. u ^ k * cum_card_coeffmat K ! k ! j) [0..<K + 1])"

subsection \<open>Eigen vectors and matrices\<close>

type_synonym Tangent = "Scalar list"
type_synonym Matrix = "Scalar list list"

definition dot :: "Scalar list \<Rightarrow> Scalar list \<Rightarrow> Scalar" where
  "dot a b = sum_list (map2 (*) a b)"

definition scale :: "Scalar \<Rightarrow> Tangent \<Rightarrow> Tangent" where
  "scale s v = map ((*) s) v"

definition vneg :: "Tangent \<Rightarrow> Tangent" where
  "vneg v = map uminus v"

definition vadd :: "Tangent \<Rightarrow> Tangent \<Rightarrow> Tangent" where
  "vadd a b = map2 (+) a b"

definition vdiv :: "Tangent \<Rightarrow> Scalar \<Rightarrow> Tangent" where
  "vdiv v s = map (\<lambda>x. x / s) v"

definition mat_vec :: "Matrix \<Rightarrow> Tangent \<Rightarrow> Tangent" where
  "mat_vec A v = map (\<lambda>row. dot row v) A"

definition mat_mat :: "Matrix \<Rightarrow> Matrix \<Rightarrow> Matrix" where
  "mat_mat A B = map (\<lambda>row. map (\<lambda>col. dot row col) (transpose B)) A"

definition mat_scale :: "Scalar \<Rightarrow> Matrix \<Rightarrow> Matrix" where
  "mat_scale s A = map (map ((*) s)) A"

definition mat_neg :: "Matrix \<Rightarrow> Matrix" where
  "mat_neg A = map (map uminus) A"

definition mat_add :: "Matrix \<Rightarrow> Matrix \<Rightarrow> Matrix" where
  "mat_add A B = map2 (map2 (+)) A B"

definition mat_sub :: "Matrix \<Rightarrow> Matrix \<Rightarrow> Matrix" where
  "mat_sub A B = map2 (map2 (-)) A B"

definition setZero_vec :: "nat \<Rightarrow> Tangent" where
  "setZero_vec n = replicate n 0"

definition setZero_mat :: "nat \<Rightarrow> nat \<Rightarrow> Matrix" where
  "setZero_mat rows cols = replicate rows (replicate cols 0)"

subsection \<open>The Lie group contract\<close>

text \<open>
  The concrete groups are not part of \<open>bspline.hpp\<close>; the evaluator is generic in the
  group \<open>G\<close>. A group is the record of the operations the evaluator calls. The names
  \<open>inverse\<close>, \<open>exp\<close> and \<open>log\<close> carry the suffix \<open>_G\<close>. \<open>dl_expinv\<close> is derived in
  \<open>LieGroupBase\<close> from \<open>ad\<close> and \<open>dr_expinv\<close>.
\<close>

record 'g LieGroup =
  Dof :: nat
  Identity :: 'g
  compose :: "'g \<Rightarrow> 'g \<Rightarrow> 'g"
  inverse_G :: "'g \<Rightarrow> 'g"
  exp_G :: "Tangent \<Rightarrow> 'g"
  log_G :: "'g \<Rightarrow> Tangent"
  Ad :: "'g \<Rightarrow> Matrix"
  ad :: "Tangent \<Rightarrow> Matrix"
  dr_exp :: "Tangent \<Rightarrow> Matrix"
  dr_expinv :: "Tangent \<Rightarrow> Matrix"

definition dl_expinv :: "'g LieGroup \<Rightarrow> Tangent \<Rightarrow> Matrix" where
  "dl_expinv G t = mat_add (mat_neg (ad G t)) (dr_expinv G t)"

subsection \<open>Failures\<close>

text \<open>
  \<open>RuntimeError\<close> is the \<open>std::runtime_error\<close> of the size checks, with its message.
  \<open>BadOptionalAccess\<close> is what \<open>std::optional::value()\<close> throws on an empty optional.
  The other three have no defined behaviour in C++: dereferencing an iterator outside
  its range (with the offset from \<open>begin\<close>), converting a floating-point value outside
  the range of \<open>int64_t\<close>, and \<open>std::views::drop\<close> with a negative count.
\<close>

datatype error =
    RuntimeError string
  | BadOptionalAccess
  | OutOfBounds int
  | FloatToIntOverflow
  | NegativeDropCount int

definition digit_char :: "nat \<Rightarrow> char" where
  "digit_char d = char_of (48 + d)"

fun to_string :: "nat \<Rightarrow> string" where
  "to_string n = (if n < 10 then [digit_char n] else to_string (n div 10) @ [digit_char (n mod 10)])"

declare to_string.simps [simp del]

definition opt_value :: "'a option \<Rightarrow> error + 'a" where
  "opt_value x = (case x of None \<Rightarrow> Inl BadOptionalAccess | Some v \<Rightarrow> Inr v)"

definition deref :: "'a list \<Rightarrow> int \<Rightarrow> error + 'a" where
  "deref xs i = (if 0 \<le> i \<and> i < int (length xs) then Inr (xs ! nat i) else Inl (OutOfBounds i))"

text \<open>The number a decimal string denotes, to read the counts of a message back.\<close>

definition decimal_value :: "string \<Rightarrow> nat" where
  "decimal_value s = foldl (\<lambda>a c. 10 * a + (of_char c - 48)) 0 s"

subsection \<open>The evaluator, displacement form\<close>

text \<open>
  \<open>power_vectors\<close> is the first loop (\<open>uvec\<close>, \<open>duvec\<close>, \<open>d2uvec\<close>); \<open>coeff_rows\<close> is the
  matrix \<open>M\<close>, whose row \<open>j\<close> is column \<open>j\<close> of the cumulative coefficient matrix;
  \<open>init_outputs\<close> is the \<open>setZero\<close> block; \<open>fold_body\<close> and \<open>fold_loop\<close> are the loop over
  \<open>diff_points\<close> with its counter \<open>j\<close>; \<open>der_body\<close> and \<open>der_loop\<close> are the loop
  \<open>for (int j = K; j >= 0; --j)\<close> that fills \<open>der\<close>, kept as the list of its \<open>K + 1\<close>
  blocks of size \<open>Dof \<times> Dof\<close>.
\<close>

definition power_vectors ::
  "nat \<Rightarrow> Scalar \<Rightarrow> bool \<Rightarrow> bool \<Rightarrow> Scalar list \<times> Scalar list \<times> Scalar list" where
  "power_vectors K u has_vel has_acc =
     fold (\<lambda>k (uvec, duvec, d2uvec).
        let uvec = uvec[k := u * uvec ! (k - 1)] in
        if has_vel \<or> has_acc then
          let duvec = duvec[k := real k * uvec ! (k - 1)] in
          if has_acc then (uvec, duvec, d2uvec[k := real k * duvec ! (k - 1)])
          else (uvec, duvec, d2uvec)
        else (uvec, duvec, d2uvec))
       [1..<K + 1]
       ((replicate (K + 1) 0)[0 := 1], replicate (K + 1) 0, replicate (K + 1) 0)"

definition coeff_rows :: "nat \<Rightarrow> Matrix" where
  "coeff_rows K = SM_transpose (K + 1) (K + 1) (cum_card_coeffmat K)"

definition init_outputs ::
  "'g LieGroup \<Rightarrow> bool \<Rightarrow> bool \<Rightarrow> error + (Tangent option \<times> Tangent option)" where
  "init_outputs G has_vel has_acc =
     (if has_vel \<or> has_acc then
        (case opt_value (if has_vel then Some (setZero_vec (Dof G)) else None) of
           Inl e \<Rightarrow> Inl e
         | Inr vel \<Rightarrow> Inr (Some vel, if has_acc then Some (setZero_vec (Dof G)) else None))
      else Inr (None, None))"

definition fold_body ::
  "'g LieGroup \<Rightarrow> Scalar list \<Rightarrow> Scalar list \<Rightarrow> Scalar list \<Rightarrow> Matrix \<Rightarrow> nat \<Rightarrow> Tangent \<Rightarrow>
   'g \<times> Tangent option \<times> Tangent option \<Rightarrow> error + ('g \<times> Tangent option \<times> Tangent option)" where
  "fold_body G uvec duvec d2uvec M j v s =
     (case s of (g, vel, acc) \<Rightarrow>
        let Btilde = dot uvec (M ! j);
            g = compose G g (exp_G G (scale Btilde v))
        in if vel \<noteq> None \<or> acc \<noteq> None then
             let dBtilde = dot duvec (M ! j);
                 Ad' = Ad G (exp_G G (scale (- Btilde) v))
             in (case opt_value vel of
                   Inl e \<Rightarrow> Inl e
                 | Inr velv \<Rightarrow>
                     let velv = mat_vec Ad' velv;
                         velv = vadd velv (scale dBtilde v)
                     in (case acc of
                           None \<Rightarrow> Inr (g, Some velv, None)
                         | Some accv \<Rightarrow>
                             let d2Btilde = dot d2uvec (M ! j);
                                 accv = mat_vec Ad' accv;
                                 accv = vadd accv
                                   (vadd (mat_vec (mat_scale dBtilde (ad G velv)) v) (scale d2Btilde v))
                             in Inr (g, Some velv, Some accv)))
           else Inr (g, vel, acc))"

fun fold_loop ::
  "'g LieGroup \<Rightarrow> Scalar list \<Rightarrow> Scalar list \<Rightarrow> Scalar list \<Rightarrow> Matrix \<Rightarrow> nat \<Rightarrow> Tangent list \<Rightarrow>
   'g \<times> Tangent option \<times> Tangent option \<Rightarrow> error + ('g \<times> Tangent option \<times> Tangent option)" where
  "fold_loop G uvec duvec d2uvec M j [] s = Inr s"
| "fold_loop G uvec duvec d2uvec M j (v # rest) s =
     (case fold_body G uvec duvec d2uvec M j v s of
        Inl e \<Rightarrow> Inl e
      | Inr s' \<Rightarrow> fold_loop G uvec duvec d2uvec M (j + 1) rest s')"

definition der_body ::
  "'g LieGroup \<Rightarrow> nat \<Rightarrow> Scalar list \<Rightarrow> Matrix \<Rightarrow> Tangent list \<Rightarrow> int \<Rightarrow>
   'g \<times> Matrix list \<Rightarrow> error + ('g \<times> Matrix list)" where
  "der_body G K uvec M diff_points j s =
     (case s of (z2inv, der) \<Rightarrow>
        (case (if j \<noteq> int K then
                 let Btilde_jp = dot uvec (M ! nat (j + 1)) in
                 (case deref diff_points j of
                    Inl e \<Rightarrow> Inl e
                  | Inr vjp \<Rightarrow>
                      let sjp = scale Btilde_jp vjp;
                          der = der[nat j := mat_sub (der ! nat j)
                                  (mat_mat (mat_mat (mat_scale Btilde_jp (Ad G z2inv)) (dr_exp G sjp))
                                     (dl_expinv G vjp))];
                          z2inv = compose G z2inv (exp_G G (vneg sjp))
                      in Inr (z2inv, der))
               else Inr (z2inv, der)) of
           Inl e \<Rightarrow> Inl e
         | Inr (z2inv, der) \<Rightarrow>
             let Btilde_j = dot uvec (M ! nat j) in
             (case deref diff_points (j - 1) of
                Inl e \<Rightarrow> Inl e
              | Inr vj \<Rightarrow>
                  Inr (z2inv,
                       der[nat j := mat_add (der ! nat j)
                         (mat_mat (mat_mat (mat_scale Btilde_j (Ad G z2inv)) (dr_exp G (scale Btilde_j vj)))
                            (dr_expinv G vj))]))))"

fun der_loop ::
  "'g LieGroup \<Rightarrow> nat \<Rightarrow> Scalar list \<Rightarrow> Matrix \<Rightarrow> Tangent list \<Rightarrow> nat \<Rightarrow>
   'g \<times> Matrix list \<Rightarrow> error + ('g \<times> Matrix list)" where
  "der_loop G K uvec M diff_points 0 s = der_body G K uvec M diff_points 0 s"
| "der_loop G K uvec M diff_points (Suc j) s =
     (case der_body G K uvec M diff_points (int (Suc j)) s of
        Inl e \<Rightarrow> Inl e
      | Inr s' \<Rightarrow> der_loop G K uvec M diff_points j s')"

type_synonym 'g eval_out = "'g \<times> Tangent option \<times> Tangent option \<times> Matrix list option"

definition bspline_eval ::
  "'g LieGroup \<Rightarrow> nat \<Rightarrow> 'g \<Rightarrow> Tangent list \<Rightarrow> Scalar \<Rightarrow> bool \<Rightarrow> bool \<Rightarrow> bool \<Rightarrow> error + 'g eval_out" where
  "bspline_eval G K g_0 diff_points u has_vel has_acc has_der =
     (if length diff_points \<noteq> K then
        Inl (RuntimeError (''bspline: diff_points range must be size K='' @ to_string K
                           @ '', got '' @ to_string (length diff_points)))
      else
        (case power_vectors K u has_vel has_acc of (uvec, duvec, d2uvec) \<Rightarrow>
           let M = coeff_rows K in
           (case init_outputs G has_vel has_acc of
              Inl e \<Rightarrow> Inl e
            | Inr (vel, acc) \<Rightarrow>
                (case fold_loop G uvec duvec d2uvec M 1 diff_points (g_0, vel, acc) of
                   Inl e \<Rightarrow> Inl e
                 | Inr (g, vel, acc) \<Rightarrow>
                     if has_der then
                       (case der_loop G K uvec M diff_points K
                               (Identity G, replicate (K + 1) (setZero_mat (Dof G) (Dof G))) of
                          Inl e \<Rightarrow> Inl e
                        | Inr (z2inv, der) \<Rightarrow> Inr (g, vel, acc, Some der))
                     else Inr (g, vel, acc, None)))))"

subsection \<open>The evaluator, control-point form\<close>

text \<open>
  \<open>diff_pts_of\<close> is the loop that fills \<open>diff_pts\<close>; the iterators \<open>b1\<close> and \<open>b2\<close> are
  positions in \<open>ctrl_points\<close>.
\<close>

definition diff_pts_of :: "'g LieGroup \<Rightarrow> nat \<Rightarrow> 'g list \<Rightarrow> Tangent list" where
  "diff_pts_of G K ctrl_points =
     fst (fold (\<lambda>i (diff_pts, b1, b2).
                  (diff_pts[i := log_G G (compose G (inverse_G G (ctrl_points ! b1)) (ctrl_points ! b2))],
                   b1 + 1, b2 + 1))
            [0..<K] (replicate K (setZero_vec (Dof G)), 0, 1))"

definition bspline_eval_ctrl ::
  "'g LieGroup \<Rightarrow> nat \<Rightarrow> 'g list \<Rightarrow> Scalar \<Rightarrow> bool \<Rightarrow> bool \<Rightarrow> bool \<Rightarrow> error + 'g eval_out" where
  "bspline_eval_ctrl G K ctrl_points u has_vel has_acc has_der =
     (if length ctrl_points \<noteq> K + 1 then
        Inl (RuntimeError (''bspline: ctrl_points range must be size K+1='' @ to_string (K + 1)
                           @ '', got '' @ to_string (length ctrl_points)))
      else bspline_eval G K (ctrl_points ! 0) (diff_pts_of G K ctrl_points) u has_vel has_acc has_der)"

subsection \<open>The class \<open>BSpline\<close>\<close>

text \<open>
  The members \<open>t0_\<close>, \<open>dt_\<close> and \<open>ctrl_pts_\<close> carry the suffix \<open>m\<close>. The three
  constructors are \<open>BSpline_default\<close>, \<open>BSpline_move\<close> (from a \<open>std::vector\<close> rvalue)
  and \<open>BSpline_range\<close> (from any range).

  \<open>size_t\<close> arithmetic is arithmetic modulo \<open>2\<^sup>6\<^sup>4\<close>; \<open>int64_of_size_t\<close> is the
  conversion of such a value to \<open>int64_t\<close>. \<open>static_cast<int64_t>\<close> of a \<open>double\<close>
  discards the fractional part (\<open>truncate\<close>) and is defined only when the result fits;
  with \<open>dt_ = 0\<close> the quotient is infinite or not a number, which never fits.
\<close>

record 'g BSpline =
  t0_m :: Scalar
  dt_m :: Scalar
  ctrl_pts_m :: "'g list"

definition BSpline_default :: "'g LieGroup \<Rightarrow> nat \<Rightarrow> 'g BSpline" where
  "BSpline_default G K = \<lparr>t0_m = 0, dt_m = 1, ctrl_pts_m = replicate (K + 1) (Identity G)\<rparr>"

definition BSpline_move :: "Scalar \<Rightarrow> Scalar \<Rightarrow> 'g list \<Rightarrow> 'g BSpline" where
  "BSpline_move t0 dt ctrl_pts = \<lparr>t0_m = t0, dt_m = dt, ctrl_pts_m = ctrl_pts\<rparr>"

definition BSpline_range :: "Scalar \<Rightarrow> Scalar \<Rightarrow> 'g list \<Rightarrow> 'g BSpline" where
  "BSpline_range t0 dt ctrl_pts = \<lparr>t0_m = t0, dt_m = dt, ctrl_pts_m = ctrl_pts\<rparr>"

definition size_t :: "int \<Rightarrow> int" where
  "size_t x = x mod 2 ^ 64"

definition int64_of_size_t :: "int \<Rightarrow> int" where
  "int64_of_size_t x = (if x < 2 ^ 63 then x else x - 2 ^ 64)"

definition truncate :: "Scalar \<Rightarrow> int" where
  "truncate x = (if 0 \<le> x then \<lfloor>x\<rfloor> else \<lceil>x\<rceil>)"

definition int64_of_double :: "Scalar \<Rightarrow> error + int" where
  "int64_of_double x =
     (if - (2 ^ 63) \<le> truncate x \<and> truncate x < 2 ^ 63 then Inr (truncate x)
      else Inl FloatToIntOverflow)"

definition t_min :: "'g BSpline \<Rightarrow> Scalar" where
  "t_min S = t0_m S"

definition t_max :: "nat \<Rightarrow> 'g BSpline \<Rightarrow> Scalar" where
  "t_max K S = t0_m S + real_of_int (size_t (int (length (ctrl_pts_m S)) - int K)) * dt_m S"

definition clamp_index :: "nat \<Rightarrow> 'g BSpline \<Rightarrow> Scalar \<Rightarrow> int \<Rightarrow> int \<times> Scalar" where
  "clamp_index K S t istar =
     (if istar < 0 then (0, 0)
      else if size_t (istar + int K + 1) > int (length (ctrl_pts_m S)) then
        (int64_of_size_t (size_t (int (length (ctrl_pts_m S)) - int K - 1)), 1)
      else (istar, (t - t0_m S - real_of_int istar * dt_m S) / dt_m S))"

definition window :: "nat \<Rightarrow> 'g list \<Rightarrow> int \<Rightarrow> error + 'g list" where
  "window K ctrl_pts istar =
     (if istar < 0 then Inl (NegativeDropCount istar)
      else Inr (take (K + 1) (drop (nat istar) ctrl_pts)))"

definition BSpline_eval ::
  "'g LieGroup \<Rightarrow> nat \<Rightarrow> 'g BSpline \<Rightarrow> Scalar \<Rightarrow> bool \<Rightarrow> bool \<Rightarrow>
   error + ('g \<times> Tangent option \<times> Tangent option)" where
  "BSpline_eval G K S t has_vel has_acc =
     (if dt_m S = 0 then Inl FloatToIntOverflow
      else
        (case int64_of_double ((t - t0_m S) / dt_m S) of
           Inl e \<Rightarrow> Inl e
         | Inr istar \<Rightarrow>
             (case clamp_index K S t istar of (istar, u) \<Rightarrow>
                (case window K (ctrl_pts_m S) istar of
                   Inl e \<Rightarrow> Inl e
                 | Inr w \<Rightarrow>
                     (case bspline_eval_ctrl G K w u has_vel has_acc False of
                        Inl e \<Rightarrow> Inl e
                      | Inr (g, vel, acc, der) \<Rightarrow>
                          Inr (g,
                               map_option (\<lambda>v. vdiv v (dt_m S)) vel,
                               map_option (\<lambda>a. vdiv a (dt_m S * dt_m S)) acc))))))"

subsection \<open>A concrete group: the Heisenberg group\<close>

text \<open>
  To run the evaluator on concrete inputs: the Heisenberg group, a non-commutative
  group with three degrees of freedom whose exponential map is polynomial, so that all
  of its operations are exact over the rationals. An element is its coordinate triple.
\<close>

definition H3_compose :: "Scalar list \<Rightarrow> Scalar list \<Rightarrow> Scalar list" where
  "H3_compose g h = [g ! 0 + h ! 0, g ! 1 + h ! 1, g ! 2 + h ! 2 + g ! 0 * h ! 1]"

definition H3_inverse :: "Scalar list \<Rightarrow> Scalar list" where
  "H3_inverse g = [- (g ! 0), - (g ! 1), - (g ! 2) + g ! 0 * g ! 1]"

definition H3_exp :: "Tangent \<Rightarrow> Scalar list" where
  "H3_exp a = [a ! 0, a ! 1, a ! 2 + a ! 0 * a ! 1 / 2]"

definition H3_log :: "Scalar list \<Rightarrow> Tangent" where
  "H3_log g = [g ! 0, g ! 1, g ! 2 - g ! 0 * g ! 1 / 2]"

definition H3_Ad :: "Scalar list \<Rightarrow> Matrix" where
  "H3_Ad g = [[1, 0, 0], [0, 1, 0], [- (g ! 1), g ! 0, 1]]"

definition H3_ad :: "Tangent \<Rightarrow> Matrix" where
  "H3_ad a = [[0, 0, 0], [0, 0, 0], [- (a ! 1), a ! 0, 0]]"

definition H3_dr_exp :: "Tangent \<Rightarrow> Matrix" where
  "H3_dr_exp a = [[1, 0, 0], [0, 1, 0], [a ! 1 / 2, - (a ! 0) / 2, 1]]"

definition H3_dr_expinv :: "Tangent \<Rightarrow> Matrix" where
  "H3_dr_expinv a = [[1, 0, 0], [0, 1, 0], [- (a ! 1) / 2, a ! 0 / 2, 1]]"

definition H3 :: "Scalar list LieGroup" where
  "H3 = \<lparr>Dof = 3, Identity = [0, 0, 0], compose = H3_compose, inverse_G = H3_inverse,
         exp_G = H3_exp, log_G = H3_log, Ad = H3_Ad, ad = H3_ad,
         dr_exp = H3_dr_exp, dr_expinv = H3_dr_expinv\<rparr>"

section \<open>The coefficient matrices\<close>

lemma length_SM_mul: "length (SM_mul rows inner cols a b) = rows"
  by (simp add: SM_mul_def)

lemma row_length_SM_mul: "i < rows \<Longrightarrow> length (SM_mul rows inner cols a b ! i) = cols"
  by (simp add: SM_mul_def)

lemma length_SM_add: "length (SM_add a b) = min (length a) (length b)"
  by (simp add: SM_add_def)

lemma row_length_SM_add:
  "i < length a \<Longrightarrow> i < length b \<Longrightarrow>
   length (SM_add a b ! i) = min (length (a ! i)) (length (b ! i))"
  by (simp add: SM_add_def)

lemma card_coeffmat_Suc:
  "card_coeffmat (Suc n) =
     SM_add (SM_mul (Suc n + 1) (Suc n) (Suc n + 1) (fst (low_high (Suc n) (card_coeffmat n)))
               (fst (left_right (Suc n))))
            (SM_mul (Suc n + 1) (Suc n) (Suc n + 1) (snd (low_high (Suc n) (card_coeffmat n)))
               (snd (left_right (Suc n))))"
  by (simp add: Let_def split: prod.splits)

lemma length_card_coeffmat: "length (card_coeffmat K) = K + 1"
proof (cases K)
  case 0
  then show ?thesis by (simp add: SM_set_def SM_zero_def)
next
  case (Suc n)
  show ?thesis
    unfolding Suc card_coeffmat_Suc by (simp add: length_SM_add length_SM_mul)
qed

lemma row_length_card_coeffmat:
  assumes "i < K + 1"
  shows "length (card_coeffmat K ! i) = K + 1"
proof (cases K)
  case 0
  with assms show ?thesis by (simp add: SM_set_def SM_zero_def)
next
  case (Suc n)
  from assms have i: "i < Suc n + 1" by (simp add: Suc)
  show ?thesis
    unfolding Suc card_coeffmat_Suc
    using i by (simp add: row_length_SM_add length_SM_mul row_length_SM_mul)
qed

lemma fold_row_update:
  "i < length m \<Longrightarrow>
   fold (\<lambda>j ret. SM_set ret i (p j) (ret ! i ! p j + ret ! i ! q j)) js m
     = m[i := fold (\<lambda>j r. r[p j := r ! p j + r ! q j]) js (m ! i)]"
  by (induction js arbitrary: m) (simp_all add: SM_set_def)

lemma fold_rows_map:
  "n \<le> length m \<Longrightarrow>
   fold (\<lambda>i m. m[i := F (m ! i)]) [0..<n] m = map F (take n m) @ drop n m"
proof (induction n)
  case 0
  then show ?case by simp
next
  case (Suc n)
  then have n: "n < length m" by simp
  have "fold (\<lambda>i m. m[i := F (m ! i)]) [0..<Suc n] m
          = (map F (take n m) @ drop n m)[n := F ((map F (take n m) @ drop n m) ! n)]"
    using Suc by simp
  also have "(map F (take n m) @ drop n m) ! n = m ! n"
    using n by (simp add: nth_append)
  also have "(map F (take n m) @ drop n m)[n := F (m ! n)]
          = map F (take n m) @ (drop n m)[0 := F (m ! n)]"
    using n by (simp add: list_update_append)
  also have "(drop n m)[0 := F (m ! n)] = F (m ! n) # drop (Suc n) m"
    using n by (simp add: Cons_nth_drop_Suc [symmetric])
  finally show ?case
    using n by (simp add: take_Suc_conv_app_nth)
qed

lemma cum_card_coeffmat_rows:
  "cum_card_coeffmat K = map (running_sum_row K) (card_coeffmat K)"
proof -
  have step: "\<And>i m. i < length m \<Longrightarrow>
      fold (\<lambda>j ret. SM_set ret i (K - 1 - j) (ret ! i ! (K - 1 - j) + ret ! i ! (K - j))) [0..<K] m
        = m[i := running_sum_row K (m ! i)]"
    unfolding running_sum_row_def
    by (rule fold_row_update [where p = "\<lambda>j. K - 1 - j" and q = "\<lambda>j. K - j"])
  have inv: "n \<le> K + 1 \<Longrightarrow>
      fold (\<lambda>i. fold (\<lambda>j ret. SM_set ret i (K - 1 - j) (ret ! i ! (K - 1 - j) + ret ! i ! (K - j))) [0..<K])
        [0..<n] (card_coeffmat K)
      = fold (\<lambda>i m. m[i := running_sum_row K (m ! i)]) [0..<n] (card_coeffmat K)" for n
  proof (induction n)
    case 0
    then show ?case by simp
  next
    case (Suc n)
    have len: "length (fold (\<lambda>i m. m[i := running_sum_row K (m ! i)]) [0..<n] (card_coeffmat K)) = K + 1"
      using Suc.prems by (simp add: fold_rows_map length_card_coeffmat)
    show ?case using Suc len by (simp add: step [simplified])
  qed
  show ?thesis
    unfolding cum_card_coeffmat_def
    using inv [of "K + 1"] fold_rows_map [of "K + 1" "card_coeffmat K" "running_sum_row K"]
    by (simp add: length_card_coeffmat)
qed

lemma running_sum_steps:
  assumes len: "length row = K + 1" and n: "n \<le> K"
  shows "length (fold (\<lambda>j ret. ret[K - 1 - j := ret ! (K - 1 - j) + ret ! (K - j)]) [0..<n] row) = K + 1
       \<and> (\<forall>c\<le>K. fold (\<lambda>j ret. ret[K - 1 - j := ret ! (K - 1 - j) + ret ! (K - j)]) [0..<n] row ! c
              = (if K - n \<le> c then sum_list (map ((!) row) [c..<K + 1]) else row ! c))"
  using n
proof (induction n)
  case 0
  have "[K..<Suc K] = [K]" by simp
  then show ?case using len by (auto simp: le_antisym)
next
  case (Suc n)
  define r where "r = fold (\<lambda>j ret. ret[K - 1 - j := ret ! (K - 1 - j) + ret ! (K - j)]) [0..<n] row"
  from Suc have lr: "length r = K + 1"
    and nr: "\<And>c. c \<le> K \<Longrightarrow> r ! c = (if K - n \<le> c then sum_list (map ((!) row) [c..<K + 1]) else row ! c)"
    by (simp_all add: r_def)
  from Suc.prems have nK: "n < K" by simp
  have next_r: "fold (\<lambda>j ret. ret[K - 1 - j := ret ! (K - 1 - j) + ret ! (K - j)]) [0..<Suc n] row
          = r[K - 1 - n := r ! (K - 1 - n) + r ! (K - n)]"
    by (simp add: r_def)
  have "\<not> K - n \<le> K - 1 - n" and "K - 1 - n \<le> K"
    using nK by arith+
  then have a: "r ! (K - 1 - n) = row ! (K - 1 - n)"
    using nr [of "K - 1 - n"] by (simp only: if_False)
  have b: "r ! (K - n) = sum_list (map ((!) row) [K - n..<K + 1])"
    using nr [of "K - n"] by simp
  have c: "[K - 1 - n..<K + 1] = (K - 1 - n) # [K - n..<K + 1]"
    using nK by (simp add: upt_conv_Cons Suc_diff_Suc)
  have new: "r ! (K - 1 - n) + r ! (K - n) = sum_list (map ((!) row) [K - 1 - n..<K + 1])"
    by (simp only: a b c list.map sum_list.Cons)
  show ?case
  proof (intro conjI allI impI)
    show "length (fold (\<lambda>j ret. ret[K - 1 - j := ret ! (K - 1 - j) + ret ! (K - j)]) [0..<Suc n] row) = K + 1"
      by (simp only: next_r length_list_update lr)
  next
    fix c assume cK: "c \<le> K"
    show "fold (\<lambda>j ret. ret[K - 1 - j := ret ! (K - 1 - j) + ret ! (K - j)]) [0..<Suc n] row ! c
            = (if K - Suc n \<le> c then sum_list (map ((!) row) [c..<K + 1]) else row ! c)"
    proof (cases "c = K - 1 - n")
      case True
      then show ?thesis
        unfolding next_r using lr nK new by simp
    next
      case False
      then have "r[K - 1 - n := r ! (K - 1 - n) + r ! (K - n)] ! c = r ! c" by simp
      moreover have "(K - Suc n \<le> c) = (K - n \<le> c)" using False nK by auto
      ultimately show ?thesis unfolding next_r using nr [OF cK] by simp
    qed
  qed
qed

lemma running_sum_row_nth:
  assumes "length row = K + 1" and "c \<le> K"
  shows "running_sum_row K row ! c = sum_list (map ((!) row) [c..<K + 1])"
  using running_sum_steps [OF assms(1) le_refl] assms(2)
  by (simp add: running_sum_row_def)

lemma cum_card_coeffmat_nth:
  assumes "i < K + 1" and "c < K + 1"
  shows "cum_card_coeffmat K ! i ! c = sum_list (map (\<lambda>l. card_coeffmat K ! i ! l) [c..<K + 1])"
proof -
  have "cum_card_coeffmat K ! i = running_sum_row K (card_coeffmat K ! i)"
    using assms(1) by (simp add: cum_card_coeffmat_rows length_card_coeffmat)
  then show ?thesis
    using running_sum_row_nth [OF row_length_card_coeffmat [OF assms(1)], of c] assms(2)
    by simp
qed

lemma cum_card_coeffmat_0: "cum_card_coeffmat 0 = [[1]]"
  by (simp add: cum_card_coeffmat_def SM_set_def SM_zero_def)

text \<open>
Claim C6. For every degree \<open>K\<close>, \<open>cum_card_coeffmat\<close> is \<open>card_coeffmat\<close> with the running sum
\<open>ret[i][K-1-j] += ret[i][K-j]\<close>, \<open>j = 0..K-1\<close>, applied to every row \<open>i\<close>; entry \<open>(i, c)\<close> of the
result is therefore the sum of the entries \<open>c..K\<close> of row \<open>i\<close> of the cardinal matrix. The base
case \<open>K = 0\<close> of the recursion is the matrix \<open>[[1]]\<close>, and so is its cumulative matrix.
\<close>

theorem cum_card_coeffmat_running_sum:
  "cum_card_coeffmat K = map (running_sum_row K) (card_coeffmat K)
   \<and> (\<forall>i<K + 1. \<forall>c<K + 1.
        cum_card_coeffmat K ! i ! c = sum_list (map (\<lambda>l. card_coeffmat K ! i ! l) [c..<K + 1]))
   \<and> card_coeffmat 0 = [[1]] \<and> cum_card_coeffmat 0 = [[1]]"
  using cum_card_coeffmat_rows cum_card_coeffmat_nth cum_card_coeffmat_0
  by (simp add: SM_set_def SM_zero_def)

lemma cum_card_coeffmat_2: "cum_card_coeffmat 2 = [[1, 1 / 2, 0], [0, 1, 0], [0, - 1 / 2, 1 / 2]]"
  by code_simp

lemma card_coeffmat_2: "card_coeffmat 2 = [[1 / 2, 1 / 2, 0], [- 1, 1, 0], [1 / 2, - 1, 1 / 2]]"
  by code_simp

text \<open>
The statement at degree 2, with the matrices computed.
\<close>

theorem cum_card_coeffmat_running_sum_witness:
  "map (running_sum_row 2) (card_coeffmat 2) = [[1, 1 / 2, 0], [0, 1, 0], [0, - 1 / 2, 1 / 2]]
   \<and> (0::nat) < 2 + 1 \<and> (1::nat) < 2 + 1
   \<and> sum_list (map (\<lambda>l. card_coeffmat 2 ! 0 ! l) [1..<2 + 1]) = 1 / 2"
proof -
  from cum_card_coeffmat_running_sum [of 2]
  have rows: "cum_card_coeffmat 2 = map (running_sum_row 2) (card_coeffmat 2)"
    and all: "\<forall>i<2 + 1. \<forall>c<2 + 1.
        cum_card_coeffmat 2 ! i ! c = sum_list (map (\<lambda>l. card_coeffmat 2 ! i ! l) [c..<2 + 1])"
    by blast+
  from all [rule_format, of 0 1]
  have entry: "cum_card_coeffmat 2 ! 0 ! 1 = sum_list (map (\<lambda>l. card_coeffmat 2 ! 0 ! l) [1..<2 + 1])"
    by simp
  from rows [symmetric] entry [symmetric] show ?thesis
    by (simp add: cum_card_coeffmat_2)
qed

section \<open>The displacement-form evaluator\<close>

lemma dot_map_map: "dot (map f xs) (map g xs) = sum_list (map (\<lambda>x. f x * g x) xs)"
  by (induction xs) (simp_all add: dot_def)

lemma coeff_rows_nth:
  "j < K + 1 \<Longrightarrow> coeff_rows K ! j = map (\<lambda>k. cum_card_coeffmat K ! k ! j) [0..<K + 1]"
  by (simp add: coeff_rows_def SM_transpose_def del: upt_Suc)

lemma fold_fst_commute:
  assumes "\<And>k s. fst (f k s) = h k (fst s)"
  shows "fst (fold f ks s) = fold h ks (fst s)"
  using assms by (induction ks arbitrary: s) simp_all

lemma uvec_steps:
  "n \<le> K \<Longrightarrow>
   fold (\<lambda>k uvec. uvec[k := u * uvec ! (k - 1)]) [1..<n + 1] ((replicate (K + 1) 0)[0 := 1])
     = map (\<lambda>k. u ^ k) [0..<n + 1] @ replicate (K - n) (0::real)"
proof (induction n)
  case 0
  show ?case by simp
next
  case (Suc n)
  then have nK: "n < K" by simp
  define uv where "uv = map (\<lambda>k. u ^ k) [0..<n + 1] @ replicate (K - n) (0::real)"
  have prev: "fold (\<lambda>k uvec. uvec[k := u * uvec ! (k - 1)]) [1..<n + 1] ((replicate (K + 1) 0)[0 := 1]) = uv"
    using Suc by (simp add: uv_def)
  have "[1..<Suc n + 1] = [1..<n + 1] @ [Suc n]" by simp
  then have "fold (\<lambda>k uvec. uvec[k := u * uvec ! (k - 1)]) [1..<Suc n + 1] ((replicate (K + 1) 0)[0 := 1])
        = uv[Suc n := u * uv ! n]"
    by (simp only: fold_append o_apply prev fold.simps id_apply diff_Suc_1)
  also have "uv ! n = u ^ n"
    by (simp add: uv_def nth_append del: upt_Suc)
  also have "uv[Suc n := u * u ^ n] = map (\<lambda>k. u ^ k) [0..<Suc n + 1] @ replicate (K - Suc n) 0"
  proof -
    have "replicate (K - n) (0::real) = 0 # replicate (K - Suc n) 0"
      using nK by (metis Suc_diff_Suc replicate_Suc)
    then show ?thesis
      by (simp add: uv_def list_update_append del: upt_Suc replicate_Suc) simp
  qed
  finally show ?case .
qed

lemma power_vectors_uvec: "fst (power_vectors K u has_vel has_acc) = map (\<lambda>k. u ^ k) [0..<K + 1]"
proof -
  have "fst (power_vectors K u has_vel has_acc)
        = fold (\<lambda>k uvec. uvec[k := u * uvec ! (k - 1)]) [1..<K + 1] ((replicate (K + 1) 0)[0 := 1])"
    unfolding power_vectors_def
    by (subst fold_fst_commute [where h = "\<lambda>k uvec. uvec[k := u * uvec ! (k - 1)]"])
       (simp_all add: Let_def split: prod.splits del: upt_Suc replicate_Suc)
  then show ?thesis using uvec_steps [of K K u] by simp
qed

lemma Btilde_dot:
  assumes "j < K + 1"
  shows "dot (fst (power_vectors K u has_vel has_acc)) (coeff_rows K ! j) = Btilde K u j"
  by (simp only: power_vectors_uvec coeff_rows_nth [OF assms] dot_map_map Btilde_def)

lemma fold_body_ok:
  assumes "acc \<noteq> None \<longrightarrow> vel \<noteq> None"
  shows "\<exists>vel' acc'. fold_body G uvec duvec d2uvec M j v (g, vel, acc)
            = Inr (compose G g (exp_G G (scale (dot uvec (M ! j)) v)), vel', acc')
          \<and> (vel' = None \<longleftrightarrow> vel = None) \<and> (acc' = None \<longleftrightarrow> acc = None)"
  using assms by (cases vel; cases acc) (simp_all add: fold_body_def opt_value_def Let_def)

lemma fold_loop_ok:
  assumes "acc \<noteq> None \<longrightarrow> vel \<noteq> None"
  shows "\<exists>vel' acc'. fold_loop G uvec duvec d2uvec M j vs (g, vel, acc)
            = Inr (foldl (\<lambda>g (j, v). compose G g (exp_G G (scale (dot uvec (M ! j)) v))) g
                     (zip [j..<j + length vs] vs), vel', acc')
          \<and> (vel' = None \<longleftrightarrow> vel = None) \<and> (acc' = None \<longleftrightarrow> acc = None)"
  using assms
proof (induction vs arbitrary: j g vel acc)
  case Nil
  show ?case by simp
next
  case (Cons v vs)
  from fold_body_ok [OF Cons.prems, of G uvec duvec d2uvec M j v g] obtain vel1 acc1 where
    body: "fold_body G uvec duvec d2uvec M j v (g, vel, acc)
             = Inr (compose G g (exp_G G (scale (dot uvec (M ! j)) v)), vel1, acc1)"
    and none: "vel1 = None \<longleftrightarrow> vel = None" "acc1 = None \<longleftrightarrow> acc = None"
    by blast
  from none Cons.prems have inv: "acc1 \<noteq> None \<longrightarrow> vel1 \<noteq> None" by simp
  have "[j..<j + length (v # vs)] = j # [j + 1..<j + 1 + length vs]"
    using upt_conv_Cons [of j "j + length (v # vs)"] by simp
  then have idx: "zip [j..<j + length (v # vs)] (v # vs) = (j, v) # zip [j + 1..<j + 1 + length vs] vs"
    by (simp only: zip_Cons_Cons)
  from Cons.IH [OF inv, of "j + 1" "compose G g (exp_G G (scale (dot uvec (M ! j)) v))"]
  show ?case
    by (simp only: fold_loop.simps body sum.case idx foldl_Cons prod.case none)
qed

lemma fold_body_error:
  "fold_body G uvec duvec d2uvec M j v s = Inl e \<Longrightarrow> e = BadOptionalAccess"
  by (cases s) (auto simp: fold_body_def opt_value_def Let_def split: if_splits option.splits)

lemma fold_loop_error:
  "fold_loop G uvec duvec d2uvec M j vs s = Inl e \<Longrightarrow> e = BadOptionalAccess"
proof (induction vs arbitrary: j s)
  case Nil
  then show ?case by simp
next
  case (Cons v vs)
  then show ?case
    by (cases "fold_body G uvec duvec d2uvec M j v s") (auto dest: fold_body_error)
qed

lemma init_outputs_cases:
  "init_outputs G has_vel has_acc =
     (if has_acc \<and> \<not> has_vel then Inl BadOptionalAccess
      else Inr (if has_vel then Some (setZero_vec (Dof G)) else None,
                if has_acc then Some (setZero_vec (Dof G)) else None))"
  by (simp add: init_outputs_def opt_value_def)

lemma deref_error: "deref xs i = Inl e \<Longrightarrow> e = OutOfBounds i"
  by (simp add: deref_def split: if_splits)

lemma der_body_error:
  "der_body G K uvec M diff_points j s = Inl e \<Longrightarrow> \<exists>i. e = OutOfBounds i"
  by (cases s)
     (auto simp: der_body_def Let_def split: if_splits sum.splits dest!: deref_error)

lemma der_loop_error:
  "der_loop G K uvec M diff_points n s = Inl e \<Longrightarrow> \<exists>i. e = OutOfBounds i"
proof (induction n arbitrary: s)
  case 0
  then show ?case by (auto dest: der_body_error)
next
  case (Suc n)
  then show ?case
    by (cases "der_body G K uvec M diff_points (int (Suc n)) s") (auto dest: der_body_error)
qed

lemma der_body_ok:
  assumes "length diff_points = K" and "0 < j" and "j \<le> K"
  shows "\<exists>s'. der_body G K uvec M diff_points (int j) s = Inr s'"
  using assms by (cases s) (simp add: der_body_def deref_def Let_def)

lemma der_body_0:
  assumes "length diff_points = K"
  shows "der_body G K uvec M diff_points 0 s = Inl (OutOfBounds (- 1))"
  using assms by (cases s) (simp add: der_body_def deref_def Let_def)

lemma der_loop_fails:
  assumes "length diff_points = K" and "n \<le> K"
  shows "der_loop G K uvec M diff_points n s = Inl (OutOfBounds (- 1))"
  using assms(2)
proof (induction n arbitrary: s)
  case 0
  show ?case by (simp add: der_body_0 [OF assms(1)])
next
  case (Suc n)
  have "0 < Suc n" by simp
  from der_body_ok [OF assms(1) this Suc.prems, of G uvec M s] obtain s' where
    "der_body G K uvec M diff_points (int (Suc n)) s = Inr s'"
    by blast
  moreover have "der_loop G K uvec M diff_points n s' = Inl (OutOfBounds (- 1))"
    using Suc by simp
  ultimately show ?case by (simp only: der_loop.simps sum.case)
qed

lemma bspline_eval_value:
  assumes "length diff_points = K" and "has_acc \<longrightarrow> has_vel"
  shows "\<exists>vel acc. bspline_eval G K g_zero diff_points u has_vel has_acc False
           = Inr (foldl (\<lambda>g (j, v). compose G g (exp_G G (scale (Btilde K u j) v))) g_zero
                    (zip [1..<K + 1] diff_points), vel, acc, None)
         \<and> (vel = None \<longleftrightarrow> \<not> has_vel) \<and> (acc = None \<longleftrightarrow> \<not> has_acc)"
proof -
  obtain uvec duvec d2uvec where pv: "power_vectors K u has_vel has_acc = (uvec, duvec, d2uvec)"
    by (cases "power_vectors K u has_vel has_acc")
  then have uvec: "uvec = fst (power_vectors K u has_vel has_acc)" by simp
  define vel0 where "vel0 = (if has_vel then Some (setZero_vec (Dof G)) else None)"
  define acc0 where "acc0 = (if has_acc then Some (setZero_vec (Dof G)) else None)"
  have init: "init_outputs G has_vel has_acc = Inr (vel0, acc0)"
    using assms(2) by (auto simp: init_outputs_cases vel0_def acc0_def)
  have "acc0 \<noteq> None \<longrightarrow> vel0 \<noteq> None"
    using assms(2) by (simp add: vel0_def acc0_def)
  from fold_loop_ok [OF this, of G uvec duvec d2uvec "coeff_rows K" 1 diff_points g_zero]
  obtain vel acc where loop:
    "fold_loop G uvec duvec d2uvec (coeff_rows K) 1 diff_points (g_zero, vel0, acc0)
       = Inr (foldl (\<lambda>g (j, v). compose G g (exp_G G (scale (dot uvec (coeff_rows K ! j)) v))) g_zero
                (zip [1..<1 + length diff_points] diff_points), vel, acc)"
    and none: "vel = None \<longleftrightarrow> vel0 = None" "acc = None \<longleftrightarrow> acc0 = None"
    by blast
  have "foldl (\<lambda>g (j, v). compose G g (exp_G G (scale (dot uvec (coeff_rows K ! j)) v))) g_zero
          (zip [1..<1 + length diff_points] diff_points)
      = foldl (\<lambda>g (j, v). compose G g (exp_G G (scale (Btilde K u j) v))) g_zero
          (zip [1..<K + 1] diff_points)"
  proof (rule foldl_cong)
    show "zip [1..<1 + length diff_points] diff_points = zip [1..<K + 1] diff_points"
      using assms(1) by (simp del: upt_Suc)
  next
    fix g x assume "x \<in> set (zip [1..<1 + length diff_points] diff_points)"
    then have "x \<in> set (zip [1..<K + 1] diff_points)"
      using assms(1) by (simp del: upt_Suc)
    then have "fst x \<in> set [1..<K + 1]"
      by (metis set_zip_leftD prod.collapse)
    then have "fst x < K + 1" by (simp del: upt_Suc)
    from Btilde_dot [OF this, of u has_vel has_acc]
    show "(case x of (j, v) \<Rightarrow> compose G g (exp_G G (scale (dot uvec (coeff_rows K ! j)) v)))
        = (case x of (j, v) \<Rightarrow> compose G g (exp_G G (scale (Btilde K u j) v)))"
      by (cases x) (simp add: uvec)
  qed simp
  with loop have loop':
    "fold_loop G uvec duvec d2uvec (coeff_rows K) 1 diff_points (g_zero, vel0, acc0)
       = Inr (foldl (\<lambda>g (j, v). compose G g (exp_G G (scale (Btilde K u j) v))) g_zero
                (zip [1..<K + 1] diff_points), vel, acc)"
    by simp
  have "bspline_eval G K g_zero diff_points u has_vel has_acc False
      = Inr (foldl (\<lambda>g (j, v). compose G g (exp_G G (scale (Btilde K u j) v))) g_zero
               (zip [1..<K + 1] diff_points), vel, acc, None)"
    unfolding bspline_eval_def using assms(1)
    by (simp add: pv init loop' [unfolded One_nat_def] Let_def del: upt_Suc)
  moreover have "vel = None \<longleftrightarrow> \<not> has_vel" "acc = None \<longleftrightarrow> \<not> has_acc"
    using none by (simp_all add: vel0_def acc0_def)
  ultimately show ?thesis by blast
qed

text \<open>
Claim C1. For every group \<open>G\<close>, degree \<open>K\<close>, base element, list of exactly \<open>K\<close> displacements and
parameter \<open>u\<close>, the displacement form returns the left-to-right fold
\<open>g\<^sub>0 * exp(B\<tilde>\<^sub>1(u) v\<^sub>1) * \<dots> * exp(B\<tilde>\<^sub>K(u) v\<^sub>K)\<close>, with \<open>B\<tilde>\<^sub>j(u)\<close> the cumulative basis polynomial
of degree \<open>K\<close> on the powers \<open>1, u, \<dots>, u\<^sup>K\<close>. The call returns whenever \<open>der\<close> is not requested
and \<open>acc\<close> is requested only together with \<open>vel\<close>.
\<close>

theorem bspline_eval_fold:
  assumes "length diff_points = K" and "has_acc \<longrightarrow> has_vel"
  shows "\<exists>vel acc. bspline_eval G K g_zero diff_points u has_vel has_acc False
           = Inr (foldl (\<lambda>g (j, v). compose G g (exp_G G (scale (Btilde K u j) v))) g_zero
                    (zip [1..<K + 1] diff_points), vel, acc, None)"
  using bspline_eval_value [OF assms, of G g_zero u] by blast

lemma H3_simps:
  "Dof H3 = 3" "Identity H3 = [0, 0, 0]" "compose H3 = H3_compose" "inverse_G H3 = H3_inverse"
  "exp_G H3 = H3_exp" "log_G H3 = H3_log" "Ad H3 = H3_Ad" "ad H3 = H3_ad"
  "dr_exp H3 = H3_dr_exp" "dr_expinv H3 = H3_dr_expinv"
  by (simp_all add: H3_def)

lemma Btilde_2_half: "Btilde 2 (1 / 2) (Suc 0) = 7 / 8" "Btilde 2 (1 / 2) (Suc (Suc 0)) = 1 / 8"
  by (simp_all add: Btilde_def cum_card_coeffmat_2 upt_rec)

text \<open>
The fold at degree 2 in the Heisenberg group, where the order of the two factors matters.
\<close>

theorem bspline_eval_fold_witness:
  "length [[1, 0, 0], [0, 1, 0::real]] = 2
   \<and> (\<exists>vel acc. bspline_eval H3 2 [0, 0, 0] [[1, 0, 0], [0, 1, 0]] (1 / 2) False False False
          = Inr (H3_compose (H3_compose [0, 0, 0] (H3_exp [7 / 8, 0, 0])) (H3_exp [0, 1 / 8, 0]),
                 vel, acc, None))"
  using bspline_eval_fold [where diff_points = "[[1, 0, 0], [0, 1, 0]]" and K = 2 and G = H3
      and g_zero = "[0, 0, 0]" and u = "1 / 2" and has_vel = False and has_acc = False]
  by (simp add: upt_rec Btilde_2_half scale_def H3_simps)

text \<open>
Claim C2. The claim is that with exactly \<open>K\<close> displacements every access to \<open>diff_points\<close> is in
range, also when \<open>der\<close> is requested. The code does otherwise: the last iteration \<open>j = 0\<close> of the
\<open>der\<close> loop reads \<open>*(begin(diff_points) + j - 1)\<close>, the element at offset \<open>-1\<close>. Every call of
the displacement form that requests \<open>der\<close> and passes the size check and the \<open>setZero\<close> block
reaches that read, for every degree.
\<close>

theorem bspline_eval_der_out_of_bounds:
  assumes "length diff_points = K" and "has_acc \<longrightarrow> has_vel"
  shows "bspline_eval G K g_zero diff_points u has_vel has_acc True = Inl (OutOfBounds (- 1))"
proof -
  obtain uvec duvec d2uvec where pv: "power_vectors K u has_vel has_acc = (uvec, duvec, d2uvec)"
    by (cases "power_vectors K u has_vel has_acc")
  define vel0 where "vel0 = (if has_vel then Some (setZero_vec (Dof G)) else None)"
  define acc0 where "acc0 = (if has_acc then Some (setZero_vec (Dof G)) else None)"
  have init: "init_outputs G has_vel has_acc = Inr (vel0, acc0)"
    using assms(2) by (auto simp: init_outputs_cases vel0_def acc0_def)
  have "acc0 \<noteq> None \<longrightarrow> vel0 \<noteq> None"
    using assms(2) by (simp add: vel0_def acc0_def)
  from fold_loop_ok [OF this, of G uvec duvec d2uvec "coeff_rows K" 1 diff_points g_zero]
  obtain g vel acc where loop:
    "fold_loop G uvec duvec d2uvec (coeff_rows K) 1 diff_points (g_zero, vel0, acc0) = Inr (g, vel, acc)"
    by blast
  show ?thesis
    unfolding bspline_eval_def using assms(1)
    by (simp add: pv init loop [simplified] Let_def der_loop_fails [OF assms(1) le_refl])
qed

text \<open>
The out-of-range read at degree 1.
\<close>

theorem bspline_eval_der_out_of_bounds_witness:
  "length [[1, 0, 0::real]] = 1
   \<and> bspline_eval H3 1 [0, 0, 0] [[1, 0, 0]] (1 / 2) False False True = Inl (OutOfBounds (- 1))"
  using bspline_eval_der_out_of_bounds [where diff_points = "[[1, 0, 0]]" and K = 1 and G = H3
      and g_zero = "[0, 0, 0]" and u = "1 / 2" and has_vel = False and has_acc = False]
  by simp

section \<open>The control-point form\<close>

lemma diff_pts_steps:
  "n \<le> K \<Longrightarrow>
   fold (\<lambda>i (diff_pts, b1, b2).
           (diff_pts[i := log_G G (compose G (inverse_G G (ctrl_points ! b1)) (ctrl_points ! b2))],
            b1 + 1, b2 + 1))
     [0..<n] (replicate K z, 0, 1)
   = (map (\<lambda>i. log_G G (compose G (inverse_G G (ctrl_points ! i)) (ctrl_points ! (i + 1)))) [0..<n]
        @ replicate (K - n) z, n, n + 1)"
proof (induction n)
  case 0
  show ?case by simp
next
  case (Suc n)
  then have nK: "n < K" by simp
  have rep: "replicate (K - n) z = z # replicate (K - Suc n) z"
    using nK by (metis Suc_diff_Suc replicate_Suc)
  show ?case
    using Suc by (simp add: rep list_update_append del: replicate_Suc)
qed

lemma diff_pts_of_eq:
  "diff_pts_of G K ctrl_points
     = map (\<lambda>i. log_G G (compose G (inverse_G G (ctrl_points ! i)) (ctrl_points ! (i + 1)))) [0..<K]"
  unfolding diff_pts_of_def by (subst diff_pts_steps [OF le_refl]) simp

lemma diff_pts_of_shifted:
  "diff_pts_of G K ctrl_points
     = map (\<lambda>i. log_G G (compose G (inverse_G G (ctrl_points ! (i - 1))) (ctrl_points ! i))) [1..<K + 1]"
proof -
  have "[1..<K + 1] = map Suc [0..<K]"
    by (simp add: map_Suc_upt del: upt_Suc)
  then show ?thesis
    by (simp only: diff_pts_of_eq map_map o_def diff_Suc_1 Suc_eq_plus1 add_diff_cancel_right')
qed

lemma length_diff_pts_of: "length (diff_pts_of G K ctrl_points) = K"
  by (simp add: diff_pts_of_eq)

text \<open>
Claim C4. For exactly \<open>K + 1\<close> control points the control-point form returns what the displacement
form returns on \<open>g\<^sub>0 = ctrl[0]\<close> and the displacements \<open>v\<^sub>i = log(ctrl[i-1]\<^sup>-\<^sup>1 * ctrl[i])\<close>, \<open>i = 1..K\<close>:
the same value, the same optional outputs and the same failures.
\<close>

theorem bspline_eval_ctrl_delegates:
  assumes "length ctrl_points = K + 1"
  shows "bspline_eval_ctrl G K ctrl_points u has_vel has_acc has_der
       = bspline_eval G K (ctrl_points ! 0)
           (map (\<lambda>i. log_G G (compose G (inverse_G G (ctrl_points ! (i - 1))) (ctrl_points ! i)))
              [1..<K + 1])
           u has_vel has_acc has_der"
  using assms by (simp only: bspline_eval_ctrl_def diff_pts_of_shifted [symmetric]) simp

text \<open>
Three control points of the Heisenberg group and their two displacements.
\<close>

theorem bspline_eval_ctrl_delegates_witness:
  "length [[0, 0, 0], [1, 0, 0], [1, 1, 1::real]] = 2 + 1
   \<and> bspline_eval_ctrl H3 2 [[0, 0, 0], [1, 0, 0], [1, 1, 1]] (1 / 2) True True False
       = bspline_eval H3 2 [0, 0, 0] [[1, 0, 0], [0, 1, 0]] (1 / 2) True True False"
  using bspline_eval_ctrl_delegates [where ctrl_points = "[[0, 0, 0], [1, 0, 0], [1, 1, 1]]"
      and K = 2 and G = H3 and u = "1 / 2" and has_vel = True and has_acc = True and has_der = False]
  by (simp add: upt_rec H3_simps H3_log_def H3_compose_def H3_inverse_def)

section \<open>The size checks\<close>

lemma decimal_value_snoc: "decimal_value (s @ [c]) = 10 * decimal_value s + (of_char c - 48)"
  by (simp add: decimal_value_def)

lemma of_char_digit_char: "d < 10 \<Longrightarrow> of_char (digit_char d) = 48 + d"
  by (simp add: digit_char_def)

lemma decimal_value_to_string: "decimal_value (to_string n) = n"
proof (induction n rule: to_string.induct)
  case (1 n)
  show ?case
  proof (cases "n < 10")
    case True
    then show ?thesis
      by (subst to_string.simps) (simp add: decimal_value_def of_char_digit_char)
  next
    case False
    have "decimal_value (to_string n)
        = 10 * decimal_value (to_string (n div 10)) + (of_char (digit_char (n mod 10)) - 48)"
      using False by (subst to_string.simps) (simp add: decimal_value_snoc)
    also have "\<dots> = 10 * (n div 10) + n mod 10"
      using 1 False by (simp add: of_char_digit_char)
    finally show ?thesis by simp
  qed
qed

lemma bspline_eval_no_size_error:
  assumes "length diff_points = K"
  shows "bspline_eval G K g_zero diff_points u has_vel has_acc has_der \<noteq> Inl (RuntimeError msg)"
proof
  assume err: "bspline_eval G K g_zero diff_points u has_vel has_acc has_der = Inl (RuntimeError msg)"
  obtain uvec duvec d2uvec where pv: "power_vectors K u has_vel has_acc = (uvec, duvec, d2uvec)"
    by (cases "power_vectors K u has_vel has_acc")
  show False
  proof (cases "init_outputs G has_vel has_acc")
    case (Inl e)
    then have "e = BadOptionalAccess"
      by (simp add: init_outputs_cases split: if_splits)
    with err Inl assms pv show False
      by (simp add: bspline_eval_def)
  next
    case (Inr va)
    obtain vel acc where va: "va = (vel, acc)" by (cases va)
    show False
    proof (cases "fold_loop G uvec duvec d2uvec (coeff_rows K) 1 diff_points (g_zero, vel, acc)")
      case (Inl e)
      from fold_loop_error [OF this] have "e = BadOptionalAccess" .
      with err Inl Inr va assms pv show False
        by (simp add: bspline_eval_def)
    next
      case loop: (Inr s)
      obtain g vel' acc' where s: "s = (g, vel', acc')" by (cases s)
      show False
      proof (cases "der_loop G K uvec (coeff_rows K) diff_points K
                      (Identity G, replicate (K + 1) (setZero_mat (Dof G) (Dof G)))")
        case (Inl e)
        from der_loop_error [OF this] obtain i where "e = OutOfBounds i" by blast
        with err Inl loop s Inr va assms pv show False
          by (simp add: bspline_eval_def split: if_splits)
      next
        case der: (Inr zd)
        with err loop s Inr va assms pv show False
          by (simp add: bspline_eval_def split: if_splits prod.splits)
      qed
    qed
  qed
qed

text \<open>
Claim C7. A window whose size differs from the required count (\<open>K\<close> displacements, \<open>K + 1\<close>
control points) raises the runtime error whose message holds the expected and the actual count
in decimal; a window of the required size never raises a runtime error. The decimal rendering
reads back as the number it renders.
\<close>

theorem bspline_eval_size_violation:
  "(length diff_points \<noteq> K \<longrightarrow>
      bspline_eval G K g_zero diff_points u has_vel has_acc has_der
        = Inl (RuntimeError (''bspline: diff_points range must be size K='' @ to_string K
                             @ '', got '' @ to_string (length diff_points))))
   \<and> (length diff_points = K \<longrightarrow>
      (\<forall>msg. bspline_eval G K g_zero diff_points u has_vel has_acc has_der \<noteq> Inl (RuntimeError msg)))
   \<and> (length ctrl_points \<noteq> K + 1 \<longrightarrow>
      bspline_eval_ctrl G K ctrl_points u has_vel has_acc has_der
        = Inl (RuntimeError (''bspline: ctrl_points range must be size K+1='' @ to_string (K + 1)
                             @ '', got '' @ to_string (length ctrl_points))))
   \<and> (length ctrl_points = K + 1 \<longrightarrow>
      (\<forall>msg. bspline_eval_ctrl G K ctrl_points u has_vel has_acc has_der \<noteq> Inl (RuntimeError msg)))
   \<and> decimal_value (to_string n) = n"
proof (intro conjI impI allI)
  assume "length diff_points \<noteq> K"
  then show "bspline_eval G K g_zero diff_points u has_vel has_acc has_der
        = Inl (RuntimeError (''bspline: diff_points range must be size K='' @ to_string K
                             @ '', got '' @ to_string (length diff_points)))"
    by (simp add: bspline_eval_def)
next
  fix msg assume "length diff_points = K"
  then show "bspline_eval G K g_zero diff_points u has_vel has_acc has_der \<noteq> Inl (RuntimeError msg)"
    by (rule bspline_eval_no_size_error)
next
  assume "length ctrl_points \<noteq> K + 1"
  then show "bspline_eval_ctrl G K ctrl_points u has_vel has_acc has_der
        = Inl (RuntimeError (''bspline: ctrl_points range must be size K+1='' @ to_string (K + 1)
                             @ '', got '' @ to_string (length ctrl_points)))"
    by (simp add: bspline_eval_ctrl_def)
next
  fix msg assume "length ctrl_points = K + 1"
  then show "bspline_eval_ctrl G K ctrl_points u has_vel has_acc has_der \<noteq> Inl (RuntimeError msg)"
    using bspline_eval_no_size_error [OF length_diff_pts_of [of G K ctrl_points]]
    by (simp add: bspline_eval_ctrl_def)
next
  show "decimal_value (to_string n) = n"
    by (rule decimal_value_to_string)
qed

lemma to_string_small:
  "to_string (Suc 0) = ''1''" "to_string (Suc (Suc 0)) = ''2''"
  "to_string (Suc (Suc (Suc (Suc 0)))) = ''4''"
  "to_string 2 = ''2''" "to_string 3 = ''3''" "to_string 4 = ''4''"
  by code_simp+

text \<open>
Degree 2 with \<open>K - 1 = 1\<close> and \<open>K + 2 = 4\<close> displacements, with two control points, and with the
required two displacements.
\<close>

theorem bspline_eval_size_violation_witness:
  "length [[1, 0, 0::real]] \<noteq> 2
   \<and> bspline_eval H3 2 [0, 0, 0] [[1, 0, 0]] (1 / 2) False False False
       = Inl (RuntimeError ''bspline: diff_points range must be size K=2, got 1'')
   \<and> length [[1, 0, 0], [0, 1, 0], [0, 0, 1], [1, 1, 1::real]] \<noteq> 2
   \<and> bspline_eval H3 2 [0, 0, 0] [[1, 0, 0], [0, 1, 0], [0, 0, 1], [1, 1, 1]] (1 / 2) False False False
       = Inl (RuntimeError ''bspline: diff_points range must be size K=2, got 4'')
   \<and> length [[0, 0, 0], [1, 0, 0::real]] \<noteq> 2 + 1
   \<and> bspline_eval_ctrl H3 2 [[0, 0, 0], [1, 0, 0]] (1 / 2) False False False
       = Inl (RuntimeError ''bspline: ctrl_points range must be size K+1=3, got 2'')
   \<and> length [[1, 0, 0], [0, 1, 0::real]] = 2
   \<and> bspline_eval H3 2 [0, 0, 0] [[1, 0, 0], [0, 1, 0]] (1 / 2) False False False
       \<noteq> Inl (RuntimeError ''bspline: diff_points range must be size K=2, got 2'')
   \<and> decimal_value ''4'' = 4"
  using bspline_eval_size_violation [where diff_points = "[[1, 0, 0]]" and K = 2 and G = H3
      and g_zero = "[0, 0, 0]" and u = "1 / 2" and has_vel = False and has_acc = False
      and has_der = False and ctrl_points = "[[0, 0, 0], [1, 0, 0]]" and n = 4]
    bspline_eval_size_violation [where diff_points = "[[1, 0, 0], [0, 1, 0], [0, 0, 1], [1, 1, 1]]"
      and K = 2 and G = H3 and g_zero = "[0, 0, 0]" and u = "1 / 2" and has_vel = False
      and has_acc = False and has_der = False and ctrl_points = "[]" and n = 0]
    bspline_eval_size_violation [where diff_points = "[[1, 0, 0], [0, 1, 0]]"
      and K = 2 and G = H3 and g_zero = "[0, 0, 0]" and u = "1 / 2" and has_vel = False
      and has_acc = False and has_der = False and ctrl_points = "[]" and n = 0]
  by (simp add: to_string_small)

section \<open>The ends of the unit interval\<close>

lemma cum_card_coeffmat_1: "cum_card_coeffmat (Suc 0) = [[1, 0], [0, 1]]"
  by code_simp

lemma Btilde_1: "Btilde (Suc 0) u (Suc 0) = u"
  by (simp add: Btilde_def cum_card_coeffmat_1 upt_rec)

lemma scale_0: "scale 0 v = replicate (length v) 0"
  by (induction v) (simp_all add: scale_def)

lemma scale_1: "scale 1 v = v"
  by (induction v) (simp_all add: scale_def)

lemma bspline_eval_linear:
  assumes "has_acc \<longrightarrow> has_vel"
  shows "\<exists>vel acc. bspline_eval G 1 g_zero [v] u has_vel has_acc False
           = Inr (compose G g_zero (exp_G G (scale u v)), vel, acc, None)
         \<and> (vel = None \<longleftrightarrow> \<not> has_vel) \<and> (acc = None \<longleftrightarrow> \<not> has_acc)"
  using bspline_eval_value [where diff_points = "[v]" and K = 1 and G = G and g_zero = g_zero
      and u = u and has_vel = has_vel and has_acc = has_acc] assms
  by (simp add: upt_rec Btilde_1)

lemma bspline_eval_ctrl_linear:
  "bspline_eval_ctrl G 1 [c0, c1] u False False False
     = Inr (compose G c0 (exp_G G (scale u (log_G G (compose G (inverse_G G c0) c1)))),
            None, None, None)"
proof -
  have "diff_pts_of G 1 [c0, c1] = [log_G G (compose G (inverse_G G c0) c1)]"
    by (simp add: diff_pts_of_eq)
  then show ?thesis
    using bspline_eval_linear [of False False G c0 "log_G G (compose G (inverse_G G c0) c1)" u]
    by (auto simp: bspline_eval_ctrl_def)
qed

text \<open>
Claim C5 fails at degree 2. At \<open>u = 0\<close> the first displacement carries the basis value
\<open>B\<tilde>\<^sub>1(0) = 1/2\<close>, and the displacement form returns \<open>g\<^sub>0 * exp(v\<^sub>1 / 2)\<close>, not \<open>g\<^sub>0\<close>; at \<open>u = 1\<close> the last
displacement carries \<open>B\<tilde>\<^sub>2(1) = 1/2\<close>, and the control-point form does not return the last control
point.
\<close>

theorem bspline_eval_endpoints_counterexample:
  "bspline_eval H3 2 [0, 0, 0] [[1, 0, 0], [0, 1, 0]] 0 False False False
     = Inr ([1 / 2, 0, 0], None, None, None)
   \<and> [1 / 2, 0, 0] \<noteq> [0, 0, 0::real]
   \<and> Btilde 2 0 1 = 1 / 2
   \<and> bspline_eval_ctrl H3 2 [[0, 0, 0], [1, 0, 0], [1, 1, 1]] 1 False False False
     = Inr ([1, 1 / 2, 1 / 2], None, None, None)
   \<and> [1, 1 / 2, 1 / 2] \<noteq> [1, 1, 1::real]
   \<and> Btilde 2 1 2 = 1 / 2"
  by code_simp

text \<open>
Claim C5, amended to degree 1. There \<open>B\<tilde>\<^sub>1(0) = 0\<close> and \<open>B\<tilde>\<^sub>1(1) = 1\<close>; at \<open>u = 0\<close> the displacement form
returns \<open>g\<^sub>0\<close>, and at \<open>u = 1\<close> the control-point form returns the last control point \<open>ctrl[1]\<close>. The
group laws used are hypotheses on the elements involved: \<open>exp(0) = Identity\<close>,
\<open>g\<^sub>0 * Identity = g\<^sub>0\<close>, \<open>exp(log(x)) = x\<close> and \<open>c\<^sub>0 * (c\<^sub>0\<^sup>-\<^sup>1 * c\<^sub>1) = c\<^sub>1\<close>.
\<close>

theorem bspline_eval_endpoints_linear:
  assumes "has_acc \<longrightarrow> has_vel"
    and "exp_G G (replicate (length v) 0) = Identity G"
    and "compose G g_zero (Identity G) = g_zero"
    and "exp_G G (log_G G (compose G (inverse_G G c0) c1)) = compose G (inverse_G G c0) c1"
    and "compose G c0 (compose G (inverse_G G c0) c1) = c1"
  shows "Btilde 1 0 1 = 0 \<and> Btilde 1 1 1 = 1
       \<and> (\<exists>vel acc. bspline_eval G 1 g_zero [v] 0 has_vel has_acc False = Inr (g_zero, vel, acc, None))
       \<and> (\<exists>vel acc. bspline_eval_ctrl G 1 [c0, c1] 1 has_vel has_acc False = Inr (c1, vel, acc, None))"
proof (intro conjI)
  show "Btilde 1 0 1 = 0" and "Btilde 1 1 1 = 1"
    using Btilde_1 by simp_all
next
  show "\<exists>vel acc. bspline_eval G 1 g_zero [v] 0 has_vel has_acc False = Inr (g_zero, vel, acc, None)"
    using bspline_eval_linear [OF assms(1), of G g_zero v 0] assms(2,3)
    by (auto simp: scale_0)
next
  have "diff_pts_of G 1 [c0, c1] = [log_G G (compose G (inverse_G G c0) c1)]"
    by (simp add: diff_pts_of_eq)
  then show "\<exists>vel acc. bspline_eval_ctrl G 1 [c0, c1] 1 has_vel has_acc False = Inr (c1, vel, acc, None)"
    using bspline_eval_linear [OF assms(1), of G c0 "log_G G (compose G (inverse_G G c0) c1)" 1]
      assms(4,5)
    by (auto simp: bspline_eval_ctrl_def scale_1)
qed

text \<open>
Degree 1 in the Heisenberg group, with the group laws checked on the elements involved.
\<close>

theorem bspline_eval_endpoints_linear_witness:
  "H3_exp (replicate (length [1, 0, 0::real]) 0) = [0, 0, 0]
   \<and> H3_compose [0, 0, 0] [0, 0, 0] = [0, 0, 0]
   \<and> H3_exp (H3_log (H3_compose (H3_inverse [1, 2, 3]) [2, 1, 0])) = H3_compose (H3_inverse [1, 2, 3]) [2, 1, 0]
   \<and> H3_compose [1, 2, 3] (H3_compose (H3_inverse [1, 2, 3]) [2, 1, 0]) = [2, 1, 0]
   \<and> Btilde 1 0 1 = 0 \<and> Btilde 1 1 1 = 1
   \<and> (\<exists>vel acc. bspline_eval H3 1 [0, 0, 0] [[1, 0, 0]] 0 True True False
          = Inr ([0, 0, 0], vel, acc, None))
   \<and> (\<exists>vel acc. bspline_eval_ctrl H3 1 [[1, 2, 3], [2, 1, 0]] 1 True True False
          = Inr ([2, 1, 0], vel, acc, None))"
proof -
  have h2: "exp_G H3 (replicate (length [1, 0, 0::real]) 0) = Identity H3"
    by (simp add: H3_simps H3_exp_def)
  have h3: "compose H3 [0, 0, 0] (Identity H3) = [0, 0, 0]"
    by (simp add: H3_simps H3_compose_def)
  have h4: "exp_G H3 (log_G H3 (compose H3 (inverse_G H3 [1, 2, 3]) [2, 1, 0]))
          = compose H3 (inverse_G H3 [1, 2, 3]) [2, 1, 0]"
    by (simp add: H3_simps H3_compose_def H3_exp_def H3_log_def H3_inverse_def)
  have h5: "compose H3 [1, 2, 3] (compose H3 (inverse_G H3 [1, 2, 3]) [2, 1, 0]) = [2, 1, 0]"
    by (simp add: H3_simps H3_compose_def H3_inverse_def)
  have h1: "True \<longrightarrow> True" by simp
  from bspline_eval_endpoints_linear [OF h1 h2 h3 h4 h5] h2 h3 h4 h5
  show ?thesis by (simp add: H3_simps)
qed

section \<open>The spline object\<close>

text \<open>
  The conversion to \<open>int64_t\<close> on the two ranges that matter, and \<open>eval\<close> when the truncated
  index \<open>i\<close> is a valid window start, so that neither clamping branch is taken.
\<close>

lemma truncate_nonneg: "0 \<le> x \<Longrightarrow> truncate x = \<lfloor>x\<rfloor>"
  by (simp add: truncate_def)

lemma truncate_small_negative:
  assumes "- 1 < x" and "x < 0"
  shows "truncate x = 0"
proof -
  have "\<lceil>x\<rceil> = 0"
    using assms by (intro ceiling_unique) simp_all
  with assms show ?thesis by (simp add: truncate_def)
qed

lemma BSpline_eval_at_index:
  assumes dt: "dt_m S \<noteq> 0"
    and i: "truncate ((t - t0_m S) / dt_m S) = i"
    and i0: "0 \<le> i"
    and fit: "i + int K + 1 \<le> int (length (ctrl_pts_m S))"
    and len: "length (ctrl_pts_m S) < 2 ^ 63"
  shows "BSpline_eval G K S t has_vel has_acc
       = (case bspline_eval_ctrl G K (take (K + 1) (drop (nat i) (ctrl_pts_m S)))
                 ((t - t0_m S - real_of_int i * dt_m S) / dt_m S) has_vel has_acc False of
            Inl e \<Rightarrow> Inl e
          | Inr (g, vel, acc, der) \<Rightarrow>
              Inr (g, map_option (\<lambda>v. vdiv v (dt_m S)) vel,
                   map_option (\<lambda>a. vdiv a (dt_m S * dt_m S)) acc))"
proof -
  from len have len': "int (length (ctrl_pts_m S)) < 2 ^ 63"
    by (metis of_nat_less_iff of_nat_numeral of_nat_power)
  have cast: "int64_of_double ((t - t0_m S) / dt_m S) = Inr i"
    using i i0 fit len' by (simp add: int64_of_double_def)
  have "size_t (i + int K + 1) = i + int K + 1"
    using i0 fit len' by (simp add: size_t_def)
  then have clamp: "clamp_index K S t i = (i, (t - t0_m S - real_of_int i * dt_m S) / dt_m S)"
    using i0 fit by (simp add: clamp_index_def)
  have win: "window K (ctrl_pts_m S) i = Inr (take (K + 1) (drop (nat i) (ctrl_pts_m S)))"
    using i0 by (simp add: window_def)
  show ?thesis
    unfolding BSpline_eval_def using dt by (simp add: cast clamp win)
qed

text \<open>
Claim C3. The claim is that every query \<open>t < t_min()\<close> returns the curve value at \<open>u = 0\<close> on the first
window, with \<open>istar = floor((t - t0)/dt)\<close>. The code computes \<open>istar\<close> by \<open>static_cast<int64_t>\<close>, which
rounds towards zero: for \<open>t0 - dt < t < t0\<close> the quotient lies in \<open>(-1, 0)\<close>, \<open>istar\<close> is \<open>0\<close> and not
negative, no clamping branch is taken, and the first window is evaluated at the negative
parameter \<open>u = (t - t0)/dt\<close>.
\<close>

theorem BSpline_eval_below_t_min:
  assumes "0 < dt_m S" and "K + 1 \<le> length (ctrl_pts_m S)" and "length (ctrl_pts_m S) < 2 ^ 63"
    and "t_min S - dt_m S < t" and "t < t_min S"
  shows "(t - t0_m S) / dt_m S < 0
       \<and> BSpline_eval G K S t has_vel has_acc
         = (case bspline_eval_ctrl G K (take (K + 1) (ctrl_pts_m S))
                   ((t - t0_m S) / dt_m S) has_vel has_acc False of
              Inl e \<Rightarrow> Inl e
            | Inr (g, vel, acc, der) \<Rightarrow>
                Inr (g, map_option (\<lambda>v. vdiv v (dt_m S)) vel,
                     map_option (\<lambda>a. vdiv a (dt_m S * dt_m S)) acc))"
proof
  show neg: "(t - t0_m S) / dt_m S < 0"
    using assms(1,5) by (simp add: t_min_def divide_neg_pos)
  have "- 1 < (t - t0_m S) / dt_m S"
    using assms(1,4) by (simp add: t_min_def pos_less_divide_eq)
  from truncate_small_negative [OF this neg]
  have tr: "truncate ((t - t0_m S) / dt_m S) = 0" .
  have dt: "dt_m S \<noteq> 0" using assms(1) by simp
  have fit: "0 + int K + 1 \<le> int (length (ctrl_pts_m S))" using assms(2) by simp
  from BSpline_eval_at_index [OF dt tr order_refl fit assms(3), of G has_vel has_acc]
  show "BSpline_eval G K S t has_vel has_acc
         = (case bspline_eval_ctrl G K (take (K + 1) (ctrl_pts_m S))
                   ((t - t0_m S) / dt_m S) has_vel has_acc False of
              Inl e \<Rightarrow> Inl e
            | Inr (g, vel, acc, der) \<Rightarrow>
                Inr (g, map_option (\<lambda>v. vdiv v (dt_m S)) vel,
                     map_option (\<lambda>a. vdiv a (dt_m S * dt_m S)) acc))"
    by simp
qed

text \<open>
A linear spline on \<open>[0, 1]\<close> queried at \<open>t = -1/2\<close>: the code returns the value at \<open>u = -1/2\<close>; the value
at \<open>u = 0\<close>, which clamping would return, is the first control point.
\<close>

theorem BSpline_eval_below_t_min_witness:
  "(0::real) < dt_m \<lparr>t0_m = 0, dt_m = 1, ctrl_pts_m = [[0, 0, 0], [1, 0, 0::real]]\<rparr>
   \<and> 1 + 1 \<le> length (ctrl_pts_m \<lparr>t0_m = 0, dt_m = 1, ctrl_pts_m = [[0, 0, 0], [1, 0, 0::real]]\<rparr>)
   \<and> length (ctrl_pts_m \<lparr>t0_m = 0, dt_m = 1, ctrl_pts_m = [[0, 0, 0], [1, 0, 0::real]]\<rparr>) < 2 ^ 63
   \<and> t_min \<lparr>t0_m = 0, dt_m = 1, ctrl_pts_m = [[0, 0, 0], [1, 0, 0::real]]\<rparr> - 1 < - 1 / 2
   \<and> - 1 / 2 < t_min \<lparr>t0_m = 0, dt_m = 1, ctrl_pts_m = [[0, 0, 0], [1, 0, 0::real]]\<rparr>
   \<and> BSpline_eval H3 1 \<lparr>t0_m = 0, dt_m = 1, ctrl_pts_m = [[0, 0, 0], [1, 0, 0]]\<rparr> (- 1 / 2) False False
       = Inr ([- 1 / 2, 0, 0], None, None)
   \<and> bspline_eval_ctrl H3 1 [[0, 0, 0], [1, 0, 0]] 0 False False False
       = Inr ([0, 0, 0], None, None, None)"
proof -
  let ?S = "\<lparr>t0_m = 0, dt_m = 1, ctrl_pts_m = [[0, 0, 0], [1, 0, 0::real]]\<rparr>"
  have h1: "0 < dt_m ?S" by simp
  have h2: "1 + 1 \<le> length (ctrl_pts_m ?S)" by simp
  have h3: "length (ctrl_pts_m ?S) < 2 ^ 63" by simp
  have h4: "t_min ?S - dt_m ?S < - 1 / 2" by (simp add: t_min_def)
  have h5: "- 1 / 2 < t_min ?S" by (simp add: t_min_def)
  have ev: "bspline_eval_ctrl H3 1 [[0, 0, 0], [1, 0, 0]] u False False False
      = Inr ([u, 0, 0], None, None, None)" for u
    by (subst bspline_eval_ctrl_linear)
       (simp add: H3_simps H3_compose_def H3_exp_def H3_log_def H3_inverse_def scale_def)
  from BSpline_eval_below_t_min [OF h1 h2 h3 h4 h5, of H3 False False] h1 h2 h3 h4 h5 ev [of 0]
  show ?thesis by (simp add: ev [unfolded One_nat_def] t_min_def vdiv_def)
qed

text \<open>The two clamping branches, by the truncated index \<open>i\<close>.\<close>

lemma BSpline_eval_clamped_low:
  assumes "dt_m S \<noteq> 0" and "truncate ((t - t0_m S) / dt_m S) = i" and "i < 0" and "- (2 ^ 63) \<le> i"
  shows "BSpline_eval G K S t has_vel has_acc
       = (case bspline_eval_ctrl G K (take (K + 1) (ctrl_pts_m S)) 0 has_vel has_acc False of
            Inl e \<Rightarrow> Inl e
          | Inr (g, vel, acc, der) \<Rightarrow>
              Inr (g, map_option (\<lambda>v. vdiv v (dt_m S)) vel,
                   map_option (\<lambda>a. vdiv a (dt_m S * dt_m S)) acc))"
proof -
  have cast: "int64_of_double ((t - t0_m S) / dt_m S) = Inr i"
    using assms(2,3,4) by (simp add: int64_of_double_def)
  have clamp: "clamp_index K S t i = (0, 0)"
    using assms(3) by (simp add: clamp_index_def)
  show ?thesis
    unfolding BSpline_eval_def using assms(1) by (simp add: cast clamp window_def)
qed

lemma BSpline_eval_clamped_high:
  assumes "dt_m S \<noteq> 0" and "truncate ((t - t0_m S) / dt_m S) = i" and "0 \<le> i" and "i < 2 ^ 63"
    and "K < 2 ^ 63"
    and "int (length (ctrl_pts_m S)) < i + int K + 1"
    and "K + 1 \<le> length (ctrl_pts_m S)"
  shows "BSpline_eval G K S t has_vel has_acc
       = (case bspline_eval_ctrl G K
                 (take (K + 1) (drop (length (ctrl_pts_m S) - K - 1) (ctrl_pts_m S))) 1
                 has_vel has_acc False of
            Inl e \<Rightarrow> Inl e
          | Inr (g, vel, acc, der) \<Rightarrow>
              Inr (g, map_option (\<lambda>v. vdiv v (dt_m S)) vel,
                   map_option (\<lambda>a. vdiv a (dt_m S * dt_m S)) acc))"
proof -
  from assms(5) have K: "int K < 2 ^ 63"
    by (metis of_nat_less_iff of_nat_numeral of_nat_power)
  from assms(6) assms(4) K have len: "int (length (ctrl_pts_m S)) < 2 ^ 64" by simp
  have cast: "int64_of_double ((t - t0_m S) / dt_m S) = Inr i"
    using assms(2,3,4) by (simp add: int64_of_double_def)
  have "size_t (i + int K + 1) = i + int K + 1"
    using assms(3,4) K by (simp add: size_t_def)
  moreover have "size_t (int (length (ctrl_pts_m S)) - int K - 1) = int (length (ctrl_pts_m S)) - int K - 1"
    using assms(7) len by (simp add: size_t_def)
  moreover have "int64_of_size_t (int (length (ctrl_pts_m S)) - int K - 1)
      = int (length (ctrl_pts_m S) - K - 1)"
    using assms(4,6,7) by (simp add: int64_of_size_t_def)
  ultimately have clamp: "clamp_index K S t i = (int (length (ctrl_pts_m S) - K - 1), 1)"
    using assms(3,6) by (simp add: clamp_index_def)
  show ?thesis
    unfolding BSpline_eval_def using assms(1) by (simp add: cast clamp window_def)
qed

text \<open>
Claim C8. Degree 1, control points \<open>[Identity(), exp([1,0,0])]\<close> in a group with three degrees of
freedom, \<open>t0 = 0\<close>, \<open>dt = 1\<close>: \<open>eval(0.5)\<close> returns \<open>exp(0.5 [1,0,0])\<close>, \<open>eval(-10)\<close> returns
\<open>Identity()\<close> and \<open>eval(10)\<close> returns \<open>exp([1,0,0])\<close>. The group laws used are hypotheses:
\<open>Identity * exp(a) = exp(a)\<close>, \<open>Identity\<^sup>-\<^sup>1 = Identity\<close>, \<open>log(exp([1,0,0])) = [1,0,0]\<close> and
\<open>exp(0) = Identity\<close>.
\<close>

theorem BSpline_eval_linear_scenario:
  assumes "Dof G = 3"
    and "\<And>a. compose G (Identity G) (exp_G G a) = exp_G G a"
    and "inverse_G G (Identity G) = Identity G"
    and "log_G G (exp_G G [1, 0, 0]) = [1, 0, 0]"
    and "exp_G G [0, 0, 0] = Identity G"
  shows "BSpline_eval G 1 (BSpline_range 0 1 [Identity G, exp_G G [1, 0, 0]]) (1 / 2) False False
           = Inr (exp_G G (scale (1 / 2) [1, 0, 0]), None, None)
       \<and> BSpline_eval G 1 (BSpline_range 0 1 [Identity G, exp_G G [1, 0, 0]]) (- 10) False False
           = Inr (Identity G, None, None)
       \<and> BSpline_eval G 1 (BSpline_range 0 1 [Identity G, exp_G G [1, 0, 0]]) 10 False False
           = Inr (exp_G G [1, 0, 0], None, None)"
proof -
  let ?S = "BSpline_range 0 1 [Identity G, exp_G G [1, 0, 0]]"
  have S: "t0_m ?S = 0" "dt_m ?S = 1" "ctrl_pts_m ?S = [Identity G, exp_G G [1, 0, 0]]"
    by (simp_all add: BSpline_range_def)
  have curve: "bspline_eval_ctrl G 1 [Identity G, exp_G G [1, 0, 0]] u False False False
      = Inr (exp_G G (scale u [1, 0, 0]), None, None, None)" for u
    by (subst bspline_eval_ctrl_linear) (simp add: assms)
  note curve = curve [unfolded One_nat_def]
  have mid: "BSpline_eval G 1 ?S (1 / 2) False False = Inr (exp_G G (scale (1 / 2) [1, 0, 0]), None, None)"
    by (subst BSpline_eval_at_index [where i = 0]) (simp_all add: S truncate_def curve)
  have low: "BSpline_eval G 1 ?S (- 10) False False = Inr (Identity G, None, None)"
    by (subst BSpline_eval_clamped_low [where i = "- 10"])
       (simp_all add: S truncate_def curve scale_def assms)
  have high: "BSpline_eval G 1 ?S 10 False False = Inr (exp_G G [1, 0, 0], None, None)"
    by (subst BSpline_eval_clamped_high [where i = 10])
       (simp_all add: S truncate_def curve scale_def)
  from mid low high show ?thesis by simp
qed

text \<open>
The scenario in the Heisenberg group.
\<close>

theorem BSpline_eval_linear_scenario_witness:
  "Dof H3 = 3
   \<and> H3_inverse [0, 0, 0] = [0, 0, 0]
   \<and> H3_log (H3_exp [1, 0, 0]) = [1, 0, 0]
   \<and> H3_exp [0, 0, 0] = [0, 0, 0]
   \<and> BSpline_eval H3 1 (BSpline_range 0 1 [[0, 0, 0], H3_exp [1, 0, 0]]) (1 / 2) False False
       = Inr (H3_exp [1 / 2, 0, 0], None, None)
   \<and> BSpline_eval H3 1 (BSpline_range 0 1 [[0, 0, 0], H3_exp [1, 0, 0]]) (- 10) False False
       = Inr ([0, 0, 0], None, None)
   \<and> BSpline_eval H3 1 (BSpline_range 0 1 [[0, 0, 0], H3_exp [1, 0, 0]]) 10 False False
       = Inr (H3_exp [1, 0, 0], None, None)"
proof -
  have h1: "Dof H3 = 3" by (simp add: H3_simps)
  have h2: "compose H3 (Identity H3) (exp_G H3 a) = exp_G H3 a" for a
    by (simp add: H3_simps H3_compose_def H3_exp_def)
  have h3: "inverse_G H3 (Identity H3) = Identity H3"
    by (simp add: H3_simps H3_inverse_def)
  have h4: "log_G H3 (exp_G H3 [1, 0, 0]) = [1, 0, 0]"
    by (simp add: H3_simps H3_log_def H3_exp_def)
  have h5: "exp_G H3 [0, 0, 0] = Identity H3"
    by (simp add: H3_simps H3_exp_def)
  from BSpline_eval_linear_scenario [OF h1 h2 h3 h4 h5] h1 h3 h4 h5
  show ?thesis by (simp add: H3_simps scale_def)
qed

text \<open>
  Where the clamping branches are taken: at and below \<open>t_min() - dt\<close>, and from \<open>t_max()\<close> on, as
  long as the conversion to \<open>int64_t\<close> is defined.
\<close>

lemma BSpline_eval_far_below_t_min:
  assumes dt: "0 < dt_m S" and t: "t \<le> t_min S - dt_m S"
    and range: "- (2 ^ 63) \<le> truncate ((t - t0_m S) / dt_m S)"
  shows "BSpline_eval G K S t has_vel has_acc
       = (case bspline_eval_ctrl G K (take (K + 1) (ctrl_pts_m S)) 0 has_vel has_acc False of
            Inl e \<Rightarrow> Inl e
          | Inr (g, vel, acc, der) \<Rightarrow>
              Inr (g, map_option (\<lambda>v. vdiv v (dt_m S)) vel,
                   map_option (\<lambda>a. vdiv a (dt_m S * dt_m S)) acc))"
proof -
  have "t - t0_m S \<le> - 1 * dt_m S"
    using t by (simp add: t_min_def)
  then have q: "(t - t0_m S) / dt_m S \<le> - 1"
    using dt by (simp only: pos_divide_le_eq)
  then have "\<lceil>(t - t0_m S) / dt_m S\<rceil> \<le> - 1"
    by (simp add: ceiling_le_iff)
  with q have neg: "truncate ((t - t0_m S) / dt_m S) < 0"
    by (simp add: truncate_def)
  have dt': "dt_m S \<noteq> 0" using dt by simp
  show ?thesis
    by (rule BSpline_eval_clamped_low [OF dt' refl neg range])
qed

lemma BSpline_eval_from_t_max:
  assumes dt: "0 < dt_m S" and fit: "K + 1 \<le> length (ctrl_pts_m S)"
    and len: "length (ctrl_pts_m S) < 2 ^ 63"
    and t: "t_max K S \<le> t"
    and range: "truncate ((t - t0_m S) / dt_m S) < 2 ^ 63"
  shows "BSpline_eval G K S t has_vel has_acc
       = (case bspline_eval_ctrl G K
                 (take (K + 1) (drop (length (ctrl_pts_m S) - K - 1) (ctrl_pts_m S))) 1
                 has_vel has_acc False of
            Inl e \<Rightarrow> Inl e
          | Inr (g, vel, acc, der) \<Rightarrow>
              Inr (g, map_option (\<lambda>v. vdiv v (dt_m S)) vel,
                   map_option (\<lambda>a. vdiv a (dt_m S * dt_m S)) acc))"
proof -
  define q where "q = (t - t0_m S) / dt_m S"
  define N where "N = int (length (ctrl_pts_m S)) - int K"
  from len have len': "int (length (ctrl_pts_m S)) < 2 ^ 63"
    by (metis of_nat_less_iff of_nat_numeral of_nat_power)
  have N1: "1 \<le> N" using fit by (simp add: N_def)
  have "size_t N = N" using N1 len' by (simp add: size_t_def N_def)
  then have "real_of_int N * dt_m S \<le> t - t0_m S"
    using t by (simp add: t_max_def N_def)
  then have Nq: "real_of_int N \<le> q"
    unfolding q_def using dt by (simp only: pos_le_divide_eq)
  then have q0: "0 \<le> q" using N1 by simp
  then have tr: "truncate ((t - t0_m S) / dt_m S) = \<lfloor>q\<rfloor>"
    unfolding q_def by (rule truncate_nonneg)
  have i0: "0 \<le> \<lfloor>q\<rfloor>" using q0 by simp
  have "N \<le> \<lfloor>q\<rfloor>" using Nq by (simp add: le_floor_iff)
  then have over: "int (length (ctrl_pts_m S)) < \<lfloor>q\<rfloor> + int K + 1"
    by (simp add: N_def)
  have K: "K < 2 ^ 63" using fit len by simp
  have dt': "dt_m S \<noteq> 0" using dt by simp
  from range tr have range': "\<lfloor>q\<rfloor> < 2 ^ 63" by simp
  show ?thesis
    by (rule BSpline_eval_clamped_high [OF dt' tr i0 range' K over fit])
qed

lemma BSpline_eval_in_domain:
  assumes dt: "0 < dt_m S" and fit: "K + 1 \<le> length (ctrl_pts_m S)"
    and len: "length (ctrl_pts_m S) < 2 ^ 63"
    and lo: "t_min S \<le> t" and hi: "t < t_max K S"
  shows "BSpline_eval G K S t has_vel has_acc
       = (case bspline_eval_ctrl G K
                 (take (K + 1) (drop (nat \<lfloor>(t - t0_m S) / dt_m S\<rfloor>) (ctrl_pts_m S)))
                 ((t - t0_m S - real_of_int \<lfloor>(t - t0_m S) / dt_m S\<rfloor> * dt_m S) / dt_m S)
                 has_vel has_acc False of
            Inl e \<Rightarrow> Inl e
          | Inr (g, vel, acc, der) \<Rightarrow>
              Inr (g, map_option (\<lambda>v. vdiv v (dt_m S)) vel,
                   map_option (\<lambda>a. vdiv a (dt_m S * dt_m S)) acc))"
proof -
  define q where "q = (t - t0_m S) / dt_m S"
  from len have len': "int (length (ctrl_pts_m S)) < 2 ^ 63"
    by (metis of_nat_less_iff of_nat_numeral of_nat_power)
  have q0: "0 \<le> q"
    using dt lo by (simp add: q_def t_min_def)
  have "size_t (int (length (ctrl_pts_m S)) - int K) = int (length (ctrl_pts_m S)) - int K"
    using fit len' by (simp add: size_t_def)
  then have "t - t0_m S < real_of_int (int (length (ctrl_pts_m S)) - int K) * dt_m S"
    using hi by (simp add: t_max_def)
  then have "q < real_of_int (int (length (ctrl_pts_m S)) - int K)"
    unfolding q_def using dt by (simp only: pos_divide_less_eq)
  then have "\<lfloor>q\<rfloor> < int (length (ctrl_pts_m S)) - int K"
    by (simp add: floor_less_iff)
  then have fit': "\<lfloor>q\<rfloor> + int K + 1 \<le> int (length (ctrl_pts_m S))"
    by simp
  have tr: "truncate ((t - t0_m S) / dt_m S) = \<lfloor>q\<rfloor>"
    using q0 by (simp add: truncate_nonneg q_def)
  have i0: "0 \<le> \<lfloor>q\<rfloor>" using q0 by simp
  have dt': "dt_m S \<noteq> 0" using dt by simp
  show ?thesis
    using BSpline_eval_at_index [OF dt' tr i0 fit' len, of G has_vel has_acc]
    by (simp add: q_def)
qed

lemma BSpline_eval_dt_2:
  "BSpline_eval G K \<lparr>t0_m = t0, dt_m = 2, ctrl_pts_m = pts\<rparr> (t0 + 2 * s) has_vel has_acc
     = (case BSpline_eval G K \<lparr>t0_m = t0, dt_m = 1, ctrl_pts_m = pts\<rparr> (t0 + s) has_vel has_acc of
          Inl e \<Rightarrow> Inl e
        | Inr (g, vel, acc) \<Rightarrow>
            Inr (g, map_option (\<lambda>v. vdiv v 2) vel, map_option (\<lambda>a. vdiv a 4) acc))"
proof -
  have clamp: "clamp_index K \<lparr>t0_m = t0, dt_m = 2, ctrl_pts_m = pts\<rparr> (t0 + 2 * s) i
      = clamp_index K \<lparr>t0_m = t0, dt_m = 1, ctrl_pts_m = pts\<rparr> (t0 + s) i" for i
    by (simp add: clamp_index_def field_simps)
  have one: "vdiv v 1 = v" for v
    by (induction v) (simp_all add: vdiv_def)
  show ?thesis
    unfolding BSpline_eval_def
    by (simp add: clamp one option.map_comp o_def split: sum.splits prod.splits option.splits)
qed

text \<open>
Claim C9. For a query inside the domain, \<open>eval\<close> returns the evaluator's value on the window
\<open>istar = floor((t - t0)/dt)\<close> at \<open>u = (t - t0 - istar dt)/dt\<close>, with the evaluator's velocity divided by
\<open>dt\<close> and its acceleration divided by \<open>dt\<^sup>2\<close>. A spline with \<open>dt = 2\<close>, queried where the spline with
\<open>dt = 1\<close> on the same control points has the same window and parameter, returns the same value,
half the velocity and a quarter of the acceleration.
\<close>

theorem BSpline_eval_derivative_scaling:
  assumes "0 < dt_m S" and "K + 1 \<le> length (ctrl_pts_m S)" and "length (ctrl_pts_m S) < 2 ^ 63"
    and "t_min S \<le> t" and "t < t_max K S"
  shows "BSpline_eval G K S t has_vel has_acc
       = (case bspline_eval_ctrl G K
                 (take (K + 1) (drop (nat \<lfloor>(t - t0_m S) / dt_m S\<rfloor>) (ctrl_pts_m S)))
                 ((t - t0_m S - real_of_int \<lfloor>(t - t0_m S) / dt_m S\<rfloor> * dt_m S) / dt_m S)
                 has_vel has_acc False of
            Inl e \<Rightarrow> Inl e
          | Inr (g, vel, acc, der) \<Rightarrow>
              Inr (g, map_option (\<lambda>v. vdiv v (dt_m S)) vel,
                   map_option (\<lambda>a. vdiv a (dt_m S * dt_m S)) acc))
     \<and> BSpline_eval G K \<lparr>t0_m = t0, dt_m = 2, ctrl_pts_m = pts\<rparr> (t0 + 2 * s) has_vel has_acc
       = (case BSpline_eval G K \<lparr>t0_m = t0, dt_m = 1, ctrl_pts_m = pts\<rparr> (t0 + s) has_vel has_acc of
            Inl e \<Rightarrow> Inl e
          | Inr (g, vel, acc) \<Rightarrow>
              Inr (g, map_option (\<lambda>v. vdiv v 2) vel, map_option (\<lambda>a. vdiv a 4) acc))"
  using BSpline_eval_in_domain [OF assms] BSpline_eval_dt_2 by blast

text \<open>
A quadratic spline on four control points of the Heisenberg group, with \<open>dt = 2\<close> at \<open>t = 3\<close> and
with \<open>dt = 1\<close> at \<open>t = 3/2\<close>.
\<close>

theorem BSpline_eval_derivative_scaling_witness:
  "(0::real) < dt_m \<lparr>t0_m = 0, dt_m = 2, ctrl_pts_m = [[0, 0, 0], [1, 2, 3], [2, 1, 0], [1, 1, 1::real]]\<rparr>
   \<and> 2 + 1 \<le> length (ctrl_pts_m \<lparr>t0_m = 0, dt_m = 2, ctrl_pts_m = [[0, 0, 0], [1, 2, 3], [2, 1, 0], [1, 1, 1::real]]\<rparr>)
   \<and> length (ctrl_pts_m \<lparr>t0_m = 0, dt_m = 2, ctrl_pts_m = [[0, 0, 0], [1, 2, 3], [2, 1, 0], [1, 1, 1::real]]\<rparr>) < 2 ^ 63
   \<and> t_min \<lparr>t0_m = 0, dt_m = 2, ctrl_pts_m = [[0, 0, 0], [1, 2, 3], [2, 1, 0], [1, 1, 1::real]]\<rparr> \<le> 3
   \<and> 3 < t_max 2 \<lparr>t0_m = 0, dt_m = 2, ctrl_pts_m = [[0, 0, 0], [1, 2, 3], [2, 1, 0], [1, 1, 1::real]]\<rparr>
   \<and> BSpline_eval H3 2 \<lparr>t0_m = 0, dt_m = 1, ctrl_pts_m = [[0, 0, 0], [1, 2, 3], [2, 1, 0], [1, 1, 1]]\<rparr>
         (3 / 2) True True
       = Inr ([7 / 4, 9 / 8, 71 / 128], Some [0, - 1 / 2, - 5 / 16], Some [- 2, 1, 19 / 8])
   \<and> BSpline_eval H3 2 \<lparr>t0_m = 0, dt_m = 2, ctrl_pts_m = [[0, 0, 0], [1, 2, 3], [2, 1, 0], [1, 1, 1]]\<rparr>
         3 True True
       = Inr ([7 / 4, 9 / 8, 71 / 128], Some [0, - 1 / 4, - 5 / 32], Some [- 1 / 2, 1 / 4, 19 / 32])"
proof -
  let ?pts = "[[0, 0, 0], [1, 2, 3], [2, 1, 0], [1, 1, 1::real]]"
  let ?S = "\<lparr>t0_m = 0, dt_m = 2, ctrl_pts_m = ?pts\<rparr>"
  have h1: "0 < dt_m ?S" by simp
  have h2: "2 + 1 \<le> length (ctrl_pts_m ?S)" by simp
  have h3: "length (ctrl_pts_m ?S) < 2 ^ 63" by simp
  have h4: "t_min ?S \<le> 3" by (simp add: t_min_def)
  have h5: "3 < t_max 2 ?S" by (simp add: t_max_def size_t_def)
  have unit: "BSpline_eval H3 2 \<lparr>t0_m = 0, dt_m = 1, ctrl_pts_m = ?pts\<rparr> (3 / 2) True True
      = Inr ([7 / 4, 9 / 8, 71 / 128], Some [0, - 1 / 2, - 5 / 16], Some [- 2, 1, 19 / 8])"
    by code_simp
  from BSpline_eval_derivative_scaling [OF h1 h2 h3 h4 h5, where G = H3 and ?t0.0 = 0
      and s = "3 / 2" and pts = ?pts and has_vel = True and has_acc = True]
  have "BSpline_eval H3 2 ?S (0 + 2 * (3 / 2)) True True
      = (case BSpline_eval H3 2 \<lparr>t0_m = 0, dt_m = 1, ctrl_pts_m = ?pts\<rparr> (0 + 3 / 2) True True of
           Inl e \<Rightarrow> Inl e
         | Inr (g, vel, acc) \<Rightarrow>
             Inr (g, map_option (\<lambda>v. vdiv v 2) vel, map_option (\<lambda>a. vdiv a 4) acc))"
    by blast
  then have "BSpline_eval H3 2 ?S 3 True True
      = Inr ([7 / 4, 9 / 8, 71 / 128], Some [0, - 1 / 4, - 5 / 32], Some [- 1 / 2, 1 / 4, 19 / 32])"
    by (simp add: unit vdiv_def)
  with h1 h2 h3 h4 h5 unit show ?thesis by simp
qed

text \<open>
Claim C10. Both parameterised constructors store \<open>t0\<close>, \<open>dt\<close> and the control points as given, for
every \<open>t0\<close>, every \<open>dt\<close> (also \<open>dt \<le> 0\<close>) and every sequence of control points (also shorter
than \<open>K + 1\<close>). They are total functions: construction has no failure.
\<close>

theorem BSpline_constructors_store:
  "t0_m (BSpline_move t0 dt ctrl_pts) = t0
   \<and> dt_m (BSpline_move t0 dt ctrl_pts) = dt
   \<and> ctrl_pts_m (BSpline_move t0 dt ctrl_pts) = ctrl_pts
   \<and> t0_m (BSpline_range t0 dt ctrl_pts) = t0
   \<and> dt_m (BSpline_range t0 dt ctrl_pts) = dt
   \<and> ctrl_pts_m (BSpline_range t0 dt ctrl_pts) = ctrl_pts"
  by (simp add: BSpline_move_def BSpline_range_def)

end
